theory Spec2Isabelle
  imports Complex_Main "HOL-Library.Char_ord" "HOL-Library.List_Lexorder"
begin

section \<open>Python values used by battery\_manager.py\<close>

text \<open>
  A Python float is an IEEE 754 binary64 number. A float that the program receives or
  reads from the store is modelled by its value, a real: the percentages passed in are
  finite, and NaN cannot be stored (SQLite turns it into NULL and the columns are NOT
  NULL). Comparisons against the thresholds and the copying of a value into a row are
  exact. Every arithmetic operation rounds its exact result to the nearest double, ties
  to the even mantissa, as the hardware does; a result beyond the largest double is an
  infinity. The floats \<open>-0.0\<close> and \<open>0.0\<close> are the same value (Python's \<open>==\<close> holds of
  them); they differ only when printed.
\<close>

datatype error = ValueError | TypeError | ZeroDivisionError | IntegrityError | OperationalError

text \<open>The nearest integer, ties to even.\<close>

definition round_half_even :: "real \<Rightarrow> int" where
  "round_half_even x =
     (let f = \<lfloor>x\<rfloor>; d = x - of_int f
      in if d < 1 / 2 then f
         else if 1 / 2 < d then f + 1
         else if even f then f else f + 1)"

subsection \<open>Binary64 arithmetic\<close>

text \<open>
  \<open>bit_length\<close> is the number of binary digits of a natural number, \<open>floor_log2 x\<close> the
  integer part of the binary logarithm of a positive \<open>x\<close>, and \<open>pow2 e\<close> is \<open>2\<close> to the
  power \<open>e\<close>.
\<close>

fun bit_length :: "nat \<Rightarrow> nat" where
  "bit_length n = (if n = 0 then 0 else Suc (bit_length (n div 2)))"

declare bit_length.simps [simp del]

definition floor_log2 :: "real \<Rightarrow> int" where
  "floor_log2 x =
     (if 1 \<le> x then int (bit_length (nat \<lfloor>x\<rfloor>)) - 1
      else - int (bit_length (nat (\<lceil>1 / x\<rceil> - 1))))"

definition pow2 :: "int \<Rightarrow> real" where
  "pow2 e = (if 0 \<le> e then 2 ^ nat e else 1 / 2 ^ nat (- e))"

text \<open>
  Rounding to binary64 with an unbounded exponent above: the result is a multiple of
  \<open>pow2 e\<close> with a mantissa of at most 53 bits, where \<open>e\<close> is not below the exponent
  \<open>-1074\<close> of the subnormal numbers.
\<close>

definition round_to_double :: "real \<Rightarrow> real" where
  "round_to_double x =
     (if x = 0 then 0
      else let e = max (floor_log2 \<bar>x\<bar> - 52) (- 1074)
           in of_int (round_half_even (x / pow2 e)) * pow2 e)"

text \<open>The result of an operation: a finite double, or an infinity with its sign bit.\<close>

datatype pyfloat = Finite real | Infinity bool

definition fl :: "real \<Rightarrow> pyfloat" where
  "fl x = (let y = round_to_double x
          in if 2 ^ 1024 \<le> \<bar>y\<bar> then Infinity (x < 0) else Finite y)"

text \<open>\<open>a - b\<close> and \<open>a + b\<close> on floats.\<close>

definition float_sub :: "real \<Rightarrow> real \<Rightarrow> pyfloat" where
  "float_sub a b = fl (a - b)"

definition float_add :: "pyfloat \<Rightarrow> real \<Rightarrow> pyfloat" where
  "float_add a b = (case a of Finite x \<Rightarrow> fl (x + b) | Infinity s \<Rightarrow> Infinity s)"

text \<open>
  \<open>a / b\<close> on floats, for a finite divisor that is not zero, and Python's \<open>/\<close>, which
  raises ZeroDivisionError on a zero divisor.
\<close>

definition float_quot :: "pyfloat \<Rightarrow> real \<Rightarrow> pyfloat" where
  "float_quot a b =
     (case a of Finite x \<Rightarrow> fl (x / b) | Infinity s \<Rightarrow> Infinity (s \<noteq> (b < 0)))"

definition py_truediv :: "pyfloat \<Rightarrow> real \<Rightarrow> error + pyfloat" where
  "py_truediv a b = (if b = 0 then Inl ZeroDivisionError else Inr (float_quot a b))"

text \<open>
  Python's \<open>round(x, ndigits)\<close> for \<open>ndigits \<ge> 0\<close>: the exact value of the double is rounded
  to the nearest multiple of \<open>10 ^ -ndigits\<close>, ties to even, and the decimal number
  obtained is converted to the nearest double. An infinity rounds to itself.
\<close>

definition py_round :: "pyfloat \<Rightarrow> nat \<Rightarrow> pyfloat" where
  "py_round a ndigits =
     (case a of
        Finite x \<Rightarrow>
          Finite (round_to_double (of_int (round_half_even (x * 10 ^ ndigits)) / 10 ^ ndigits))
      | Infinity s \<Rightarrow> Infinity s)"

text \<open>
  Python's \<open>sum\<close> over floats, as CPython computes it up to version 3.11: it starts
  from the integer \<open>0\<close> and adds the items from left to right in double arithmetic.
\<close>

definition py_sum :: "real list \<Rightarrow> pyfloat" where
  "py_sum xs = foldl float_add (Finite 0) xs"

text \<open>
  Decimal digits of a natural number, and the format \<open>{pct:.1f}\<close>: the exact value of
  the double rounded to one decimal, ties to even, behind the sign when the sign bit of the
  float is set.
\<close>

definition digit_char :: "nat \<Rightarrow> char" where
  "digit_char n = ''0123456789'' ! n"

fun str_nat :: "nat \<Rightarrow> string" where
  "str_nat n = (if n < 10 then [digit_char n] else str_nat (n div 10) @ [digit_char (n mod 10)])"

declare str_nat.simps [simp del]

definition fmt_1f :: "bool \<Rightarrow> real \<Rightarrow> string" where
  "fmt_1f neg x =
     (let r = nat (round_half_even (\<bar>x\<bar> * 10))
      in (if neg then ''-'' else '''') @ str_nat (r div 10) @ ''.'' @ str_nat (r mod 10))"

subsection \<open>datetime\<close>

text \<open>
  A parsed \<open>datetime\<close>: microseconds of wall-clock time since the calendar's origin, and
  the UTC offset in microseconds when the value is timezone-aware. The parser
  \<open>datetime.fromisoformat\<close> is library code: it is a parameter of the model, with
  \<open>None\<close> for the ValueError it raises on a string it cannot parse.
\<close>

record datetime =
  micros :: int
  utcoffset :: "int option"

text \<open>
  \<open>a - b\<close> on datetimes gives a timedelta (here in microseconds); Python raises
  TypeError when one operand is naive and the other aware.
\<close>

definition dt_sub :: "datetime \<Rightarrow> datetime \<Rightarrow> error + int" where
  "dt_sub a b =
     (case (utcoffset a, utcoffset b) of
        (None, None) \<Rightarrow> Inr (micros a - micros b)
      | (Some oa, Some ob) \<Rightarrow> Inr ((micros a - oa) - (micros b - ob))
      | _ \<Rightarrow> Inl TypeError)"

text \<open>
  \<open>timedelta.total_seconds()\<close> divides the microseconds by \<open>10 ** 6\<close>, and the code
  divides the seconds by \<open>3600\<close>: two float divisions. The difference of two datetimes is
  below \<open>10 ^ 18\<close> microseconds, so neither can overflow.
\<close>

definition float_div :: "real \<Rightarrow> real \<Rightarrow> real" where
  "float_div a b = round_to_double (a / b)"

definition total_seconds :: "int \<Rightarrow> real" where
  "total_seconds td = float_div (of_int td) 1000000"

section \<open>Data models\<close>

record IoTDevice =
  id_dev :: int
  name :: string
  device_type :: string
  location :: string
  battery_type :: string
  battery_capacity_mah :: int
  current_pct :: real
  last_seen :: string
  status :: string
  firmware_version :: string
  notes_dev :: string
  created_at :: string

definition health_label :: "IoTDevice \<Rightarrow> string" where
  "health_label d =
     (if current_pct d \<ge> 60 then ''healthy''
      else if current_pct d \<ge> 30 then ''warning''
      else if current_pct d \<ge> 15 then ''low''
      else ''critical'')"

record BatteryReading =
  id_rd :: int
  device_id :: int
  reading_time :: string
  battery_pct :: real
  voltage_mv :: "real option"
  temperature_c :: "real option"
  signal_rssi :: "int option"
  drain_rate :: "pyfloat option"

record BatteryAlert =
  id_al :: int
  device_id_al :: int
  alert_type :: string
  threshold :: real
  current_value :: real
  message :: string
  resolved :: bool
  created_at_al :: string

section \<open>The store\<close>

text \<open>
  The three tables in row order, and the AUTOINCREMENT counters SQLite keeps for them.
  Foreign keys are declared in the schema, but SQLite enforces them only after
  \<open>PRAGMA foreign_keys = ON\<close>, which the program never issues: an insert with an unknown
  \<open>device_id\<close> is accepted.
\<close>

record db =
  iot_devices :: "IoTDevice list"
  battery_readings :: "BatteryReading list"
  battery_alerts :: "BatteryAlert list"
  seq_devices :: int
  seq_readings :: int
  seq_alerts :: int

text \<open>AUTOINCREMENT: one more than the largest rowid the table holds or ever held.\<close>

definition next_rowid :: "int \<Rightarrow> int list \<Rightarrow> int" where
  "next_rowid seq ids = fold max ids seq + 1"

text \<open>
  The database statements of the ingestion path, each of which may raise
  \<open>sqlite3.Error\<close>. Leaving a \<open>with sqlite3.connect(...)\<close> block by an exception rolls
  the open transaction back.
\<close>

datatype stmt = SelectPrev | InsertReading | UpdateDevice | CommitReading | InsertAlert | CommitAlert

text \<open>
  What a call takes from outside the program: the parser, the clock of the database, the
  statements that fail, and \<open>minus_zero\<close>, which says that a \<open>battery_pct\<close> of value zero
  was passed as the float \<open>-0.0\<close>.
\<close>

record env =
  fromisoformat :: "string \<Rightarrow> datetime option"
  current_timestamp :: string
  fault :: "stmt \<Rightarrow> bool"
  minus_zero :: bool

text \<open>The sign bit of the float \<open>battery_pct\<close> of a call.\<close>

definition signbit :: "env \<Rightarrow> real \<Rightarrow> bool" where
  "signbit e x = (x < 0 \<or> (x = 0 \<and> minus_zero e))"

section \<open>BatteryManager\<close>

definition LOW_PCT :: real where
  "LOW_PCT = 30.0"

definition CRITICAL_PCT :: real where
  "CRITICAL_PCT = 15.0"

definition get_device :: "db \<Rightarrow> int \<Rightarrow> IoTDevice option" where
  "get_device st did = find (\<lambda>d. id_dev d = did) (iot_devices st)"

text \<open>
  \<open>add_device\<close>: the INSERT names neither \<open>status\<close> nor \<open>created_at\<close>, so the
  column defaults apply; \<open>name\<close> is UNIQUE. \<open>ts\<close> is \<open>datetime.now().isoformat()\<close>.
\<close>

definition add_device ::
  "env \<Rightarrow> string \<Rightarrow> db \<Rightarrow> string \<Rightarrow> string \<Rightarrow> string \<Rightarrow> string \<Rightarrow> int \<Rightarrow> string \<Rightarrow> string
     \<Rightarrow> db \<times> (error + IoTDevice option)" where
  "add_device e ts st nm dtype loc btype capacity_mah firmware nts =
     (if nm \<in> set (map name (iot_devices st)) then (st, Inl IntegrityError)
      else
        let lastrowid = next_rowid (seq_devices st) (map id_dev (iot_devices st));
            row = \<lparr>id_dev = lastrowid, name = nm, device_type = dtype, location = loc,
                   battery_type = btype, battery_capacity_mah = capacity_mah,
                   current_pct = 100.0, last_seen = ts, status = ''online'',
                   firmware_version = firmware, notes_dev = nts,
                   created_at = current_timestamp e\<rparr>;
            st' = st\<lparr>iot_devices := iot_devices st @ [row], seq_devices := lastrowid\<rparr>
        in (st', Inr (get_device st' lastrowid)))"

text \<open>
  The prior reading: \<open>WHERE device_id = ? ORDER BY reading_time DESC LIMIT 1\<close>. The column
  is TEXT, so the order is the byte order of the strings. SQL leaves the choice among equal
  keys open; the model takes the earliest such row.
\<close>

fun latest_reading :: "BatteryReading list \<Rightarrow> BatteryReading option" where
  "latest_reading [] = None"
| "latest_reading (r # rs) =
     (case latest_reading rs of
        None \<Rightarrow> Some r
      | Some m \<Rightarrow> if reading_time r < reading_time m then Some m else Some r)"

definition select_prev :: "db \<Rightarrow> int \<Rightarrow> (real \<times> string) option" where
  "select_prev st did =
     map_option (\<lambda>r. (battery_pct r, reading_time r))
       (latest_reading (filter (\<lambda>r. device_id r = did) (battery_readings st)))"

text \<open>
  The \<open>if prev: try: ... except ValueError: pass\<close> block. A ValueError of the parser
  leaves \<open>drain_rate\<close> at None; the TypeError of a mixed subtraction is not caught.
\<close>

definition compute_drain_rate ::
  "env \<Rightarrow> string \<Rightarrow> (real \<times> string) option \<Rightarrow> real \<Rightarrow> error + pyfloat option" where
  "compute_drain_rate e ts prev pct =
     (case prev of
        None \<Rightarrow> Inr None
      | Some (prev_pct, prev_time) \<Rightarrow>
          (case fromisoformat e ts of
             None \<Rightarrow> Inr None
           | Some t1 \<Rightarrow>
               (case fromisoformat e prev_time of
                  None \<Rightarrow> Inr None
                | Some t0 \<Rightarrow>
                    (case dt_sub t1 t0 of
                       Inl err \<Rightarrow> Inl err
                     | Inr td \<Rightarrow>
                         let elapsed_h = float_div (total_seconds td) 3600
                         in if elapsed_h > 0
                            then (case py_truediv (float_sub prev_pct pct) elapsed_h of
                                    Inl err \<Rightarrow> Inl err
                                  | Inr q \<Rightarrow> Inr (Some (py_round q 4)))
                            else Inr None))))"

definition fire_alert ::
  "env \<Rightarrow> db \<Rightarrow> int \<Rightarrow> string \<Rightarrow> real \<Rightarrow> real \<Rightarrow> string \<Rightarrow> db \<times> (error + unit)" where
  "fire_alert e st did atype thr current msg =
     (if fault e InsertAlert \<or> fault e CommitAlert then (st, Inl OperationalError)
      else
        let rowid = next_rowid (seq_alerts st) (map id_al (battery_alerts st));
            row = \<lparr>id_al = rowid, device_id_al = did, alert_type = atype, threshold = thr,
                   current_value = current, message = msg, resolved = False,
                   created_at_al = current_timestamp e\<rparr>
        in (st\<lparr>battery_alerts := battery_alerts st @ [row], seq_alerts := rowid\<rparr>, Inr ()))"

definition check_alerts :: "env \<Rightarrow> db \<Rightarrow> int \<Rightarrow> real \<Rightarrow> db \<times> (error + unit)" where
  "check_alerts e st did pct =
     (if pct \<le> CRITICAL_PCT then
        fire_alert e st did ''critical'' CRITICAL_PCT pct
          (''CRITICAL: battery at '' @ fmt_1f (signbit e pct) pct @ ''%!'')
      else if pct \<le> LOW_PCT then
        fire_alert e st did ''low_battery'' LOW_PCT pct
          (''Battery low: '' @ fmt_1f (signbit e pct) pct @ ''%'')
      else (st, Inr ()))"

definition new_status :: "real \<Rightarrow> string" where
  "new_status pct =
     (if pct \<le> CRITICAL_PCT then ''critical''
      else if pct \<le> LOW_PCT then ''warning'' else ''online'')"

definition insert_reading :: "db \<Rightarrow> BatteryReading \<Rightarrow> db" where
  "insert_reading st r =
     st\<lparr>battery_readings := battery_readings st @ [r], seq_readings := id_rd r\<rparr>"

text \<open>\<open>UPDATE iot_devices SET current_pct=?, last_seen=?, status=? WHERE id=?\<close>\<close>

definition update_device :: "db \<Rightarrow> real \<Rightarrow> string \<Rightarrow> string \<Rightarrow> int \<Rightarrow> db" where
  "update_device st pct ts stat did =
     st\<lparr>iot_devices :=
          map (\<lambda>d. if id_dev d = did
                    then d\<lparr>current_pct := pct, last_seen := ts, status := stat\<rparr> else d)
              (iot_devices st)\<rparr>"

text \<open>
  \<open>record_reading\<close>, with \<open>ts = datetime.now().isoformat()\<close>. The result is the store
  as it is left and either the exception raised or the reading returned. Every exit from
  the \<open>with\<close> block before \<open>commit\<close> leaves the store as it was.
\<close>

definition record_reading ::
  "env \<Rightarrow> string \<Rightarrow> db \<Rightarrow> int \<Rightarrow> real \<Rightarrow> real option \<Rightarrow> real option \<Rightarrow> int option
     \<Rightarrow> db \<times> (error + BatteryReading)" where
  "record_reading e ts st did pct vmv tc rssi =
     (if fault e SelectPrev then (st, Inl OperationalError)
      else
        case compute_drain_rate e ts (select_prev st did) pct of
          Inl err \<Rightarrow> (st, Inl err)
        | Inr dr \<Rightarrow>
            if fault e InsertReading then (st, Inl OperationalError)
            else
              let lastrowid = next_rowid (seq_readings st) (map id_rd (battery_readings st));
                  r = \<lparr>id_rd = lastrowid, device_id = did, reading_time = ts,
                       battery_pct = pct, voltage_mv = vmv, temperature_c = tc,
                       signal_rssi = rssi, drain_rate = dr\<rparr>;
                  w1 = insert_reading st r
              in if fault e UpdateDevice then (st, Inl OperationalError)
                 else
                   let w2 = update_device w1 pct ts (new_status pct) did
                   in if fault e CommitReading then (st, Inl OperationalError)
                      else
                        (case check_alerts e w2 did pct of
                           (st3, Inl err) \<Rightarrow> (st3, Inl err)
                         | (st3, Inr u) \<Rightarrow> (st3, Inr r)))"

text \<open>
  \<open>list_devices\<close>: \<open>if status:\<close> is false for None and for the empty string.
  \<open>ORDER BY current_pct ASC\<close>; rows with equal keys keep their table order here.
\<close>

definition list_devices :: "db \<Rightarrow> string option \<Rightarrow> IoTDevice list" where
  "list_devices st stat =
     sort_key current_pct
       (case stat of
          None \<Rightarrow> iot_devices st
        | Some s \<Rightarrow> if s = [] then iot_devices st
                     else filter (\<lambda>d. status d = s) (iot_devices st))"

record FleetStatus =
  total_devices :: int
  avg_battery_pct :: pyfloat
  healthy :: int
  warning :: int
  low :: int
  critical :: int
  active_alerts :: int

text \<open>\<open>sum(1 for d in devices if P d)\<close>\<close>

definition count_if :: "('a \<Rightarrow> bool) \<Rightarrow> 'a list \<Rightarrow> int" where
  "count_if P xs = sum_list (map (\<lambda>d. 1) (filter P xs))"

definition fleet_status :: "db \<Rightarrow> error + FleetStatus" where
  "fleet_status st =
     (let devices = list_devices st None;
          total = int (length devices);
          n_alerts = int (length (filter (\<lambda>a. \<not> resolved a) (battery_alerts st)))
      in case (if total \<noteq> 0
               then (case py_truediv (py_sum (map current_pct devices)) (of_int total) of
                       Inl err \<Rightarrow> Inl err
                     | Inr q \<Rightarrow> Inr (py_round q 1))
               else Inr (Finite 0.0)) of
           Inl err \<Rightarrow> Inl err
         | Inr avg \<Rightarrow>
             Inr \<lparr>total_devices = total,
                  avg_battery_pct = avg,
                  healthy = count_if (\<lambda>d. current_pct d \<ge> 60) devices,
                  warning = count_if (\<lambda>d. 30 \<le> current_pct d \<and> current_pct d < 60) devices,
                  low = count_if (\<lambda>d. 15 \<le> current_pct d \<and> current_pct d < 30) devices,
                  critical = count_if (\<lambda>d. current_pct d < 15) devices,
                  active_alerts = n_alerts\<rparr>)"

section \<open>Sequences of calls\<close>

text \<open>
  A caller ingesting one reading after another for the same device, each call with its own
  clock reading; the run stops at the first exception.
\<close>

fun ingest_all :: "db \<Rightarrow> int \<Rightarrow> (env \<times> string \<times> real) list \<Rightarrow> db \<times> (error + BatteryReading list)" where
  "ingest_all st did [] = (st, Inr [])"
| "ingest_all st did ((e, ts, pct) # xs) =
     (case record_reading e ts st did pct None None None of
        (st1, Inl err) \<Rightarrow> (st1, Inl err)
      | (st1, Inr r) \<Rightarrow>
          (case ingest_all st1 did xs of
             (st2, Inl err) \<Rightarrow> (st2, Inl err)
           | (st2, Inr rs) \<Rightarrow> (st2, Inr (r # rs))))"

section \<open>A parser for the timestamps the program writes\<close>

text \<open>
  \<open>datetime.isoformat()\<close> writes \<open>YYYY-MM-DDTHH:MM:SS\<close>, followed by \<open>.ffffff\<close> when
  the microseconds are not zero and by \<open>+HH:MM\<close> or \<open>-HH:MM\<close> when the value is aware.
  \<open>iso_parse\<close> reads exactly these strings. It is the parser of the concrete runs below;
  the theorems hold for every parser.
\<close>

definition digit_of :: "char \<Rightarrow> nat option" where
  "digit_of c = (let n = of_char c :: nat in if 48 \<le> n \<and> n \<le> 57 then Some (n - 48) else None)"

fun digits_val :: "string \<Rightarrow> nat \<Rightarrow> nat option" where
  "digits_val [] acc = Some acc"
| "digits_val (c # cs) acc = (case digit_of c of None \<Rightarrow> None | Some d \<Rightarrow> digits_val cs (10 * acc + d))"

definition is_leap :: "nat \<Rightarrow> bool" where
  "is_leap y = (y mod 4 = 0 \<and> (y mod 100 \<noteq> 0 \<or> y mod 400 = 0))"

definition days_in_month :: "nat \<Rightarrow> nat \<Rightarrow> nat" where
  "days_in_month y m =
     (if m = 2 then (if is_leap y then 29 else 28)
      else if m = 4 \<or> m = 6 \<or> m = 9 \<or> m = 11 then 30 else 31)"

definition days_before_year :: "nat \<Rightarrow> nat" where
  "days_before_year y = (y - 1) * 365 + (y - 1) div 4 - (y - 1) div 100 + (y - 1) div 400"

definition days_before_month :: "nat \<Rightarrow> nat \<Rightarrow> nat" where
  "days_before_month y m = sum_list (map (days_in_month y) [1..<m])"

definition parse_offset :: "string \<Rightarrow> int option option" where
  "parse_offset s =
     (if s = [] then Some None
      else if length s = 6 \<and> (s ! 0 = CHR ''+'' \<or> s ! 0 = CHR ''-'') \<and> s ! 3 = CHR '':'' then
        (case (digits_val (take 2 (drop 1 s)) 0, digits_val (take 2 (drop 4 s)) 0) of
           (Some h, Some m) \<Rightarrow>
             if h < 24 \<and> m < 60
             then Some (Some ((if s ! 0 = CHR ''-'' then - 1 else 1) * (int h * 3600 + int m * 60) * 1000000))
             else None
         | _ \<Rightarrow> None)
      else None)"

definition parse_tail :: "string \<Rightarrow> (nat \<times> int option) option" where
  "parse_tail s =
     (if s \<noteq> [] \<and> s ! 0 = CHR ''.'' then
        (if length s < 7 then None
         else case (digits_val (take 6 (drop 1 s)) 0, parse_offset (drop 7 s)) of
                (Some us, Some off) \<Rightarrow> Some (us, off)
              | _ \<Rightarrow> None)
      else map_option (Pair 0) (parse_offset s))"

definition iso_parse :: "string \<Rightarrow> datetime option" where
  "iso_parse s =
     (if length s < 19 then None
      else
        case (digits_val (take 4 s) 0, digits_val (take 2 (drop 5 s)) 0,
              digits_val (take 2 (drop 8 s)) 0, digits_val (take 2 (drop 11 s)) 0,
              digits_val (take 2 (drop 14 s)) 0, digits_val (take 2 (drop 17 s)) 0) of
          (Some y, Some mo, Some d, Some h, Some mi, Some sec) \<Rightarrow>
            if s ! 4 = CHR ''-'' \<and> s ! 7 = CHR ''-'' \<and> s ! 10 = CHR ''T'' \<and> s ! 13 = CHR '':''
               \<and> s ! 16 = CHR '':'' \<and> 1 \<le> y \<and> 1 \<le> mo \<and> mo \<le> 12 \<and> 1 \<le> d
               \<and> d \<le> days_in_month y mo \<and> h < 24 \<and> mi < 60 \<and> sec < 60
            then (case parse_tail (drop 19 s) of
                    None \<Rightarrow> None
                  | Some (us, off) \<Rightarrow>
                      Some \<lparr>micros =
                              (((int (days_before_year y + days_before_month y mo + (d - 1)) * 24
                                 + int h) * 60 + int mi) * 60 + int sec) * 1000000 + int us,
                            utcoffset = off\<rparr>)
            else None
        | _ \<Rightarrow> None)"


text \<open>An environment without store faults, and the empty store.\<close>

definition env0 :: env where
  "env0 = \<lparr>fromisoformat = iso_parse, current_timestamp = ''2024-01-01 09:00:00'',
            fault = (\<lambda>_. False), minus_zero = False\<rparr>"

definition db0 :: db where
  "db0 = \<lparr>iot_devices = [], battery_readings = [], battery_alerts = [],
           seq_devices = 0, seq_readings = 0, seq_alerts = 0\<rparr>"

section \<open>Rows and stores used in the statements\<close>

text \<open>The rows the two INSERT statements of the ingestion path write.\<close>

definition reading_row ::
  "db \<Rightarrow> string \<Rightarrow> int \<Rightarrow> real \<Rightarrow> real option \<Rightarrow> real option \<Rightarrow> int option \<Rightarrow> pyfloat option
     \<Rightarrow> BatteryReading" where
  "reading_row st ts did pct vmv tc rssi dr =
     \<lparr>id_rd = next_rowid (seq_readings st) (map id_rd (battery_readings st)), device_id = did,
      reading_time = ts, battery_pct = pct, voltage_mv = vmv, temperature_c = tc,
      signal_rssi = rssi, drain_rate = dr\<rparr>"

definition alert_row :: "env \<Rightarrow> db \<Rightarrow> int \<Rightarrow> string \<Rightarrow> real \<Rightarrow> real \<Rightarrow> string \<Rightarrow> BatteryAlert" where
  "alert_row e st did atype thr cur msg =
     \<lparr>id_al = next_rowid (seq_alerts st) (map id_al (battery_alerts st)), device_id_al = did,
      alert_type = atype, threshold = thr, current_value = cur, message = msg,
      resolved = False, created_at_al = current_timestamp e\<rparr>"

text \<open>
  The stores of the concrete runs: \<open>db1\<close> holds one registered device, \<open>db2\<close> the same
  device after a first reading of 80 percent at ten o'clock.
\<close>

definition dev1 :: IoTDevice where
  "dev1 = \<lparr>id_dev = 1, name = ''sensor-1'', device_type = ''sensor'', location = ''lab'',
           battery_type = ''LiPo'', battery_capacity_mah = 2000, current_pct = 100.0,
           last_seen = ''2024-01-01T09:00:00'', status = ''online'',
           firmware_version = ''1.0.0'', notes_dev = '''',
           created_at = ''2024-01-01 09:00:00''\<rparr>"

definition db1 :: db where
  "db1 = db0\<lparr>iot_devices := [dev1], seq_devices := 1\<rparr>"

definition r80 :: BatteryReading where
  "r80 = \<lparr>id_rd = 1, device_id = 1, reading_time = ''2024-01-01T10:00:00'', battery_pct = 80,
           voltage_mv = None, temperature_c = None, signal_rssi = None, drain_rate = None\<rparr>"

definition db2 :: db where
  "db2 = db1\<lparr>iot_devices := [dev1\<lparr>current_pct := 80, last_seen := ''2024-01-01T10:00:00'',
                                    status := ''online''\<rparr>],
              battery_readings := [r80], seq_readings := 1\<rparr>"

text \<open>
  \<open>fleet4\<close> is a fleet with one device in each health bucket; \<open>db3\<close> is \<open>db1\<close> with an
  unresolved low\_battery alert already stored for the device.
\<close>

definition fleet4 :: db where
  "fleet4 = db0\<lparr>iot_devices :=
                  [dev1\<lparr>current_pct := 80\<rparr>,
                   dev1\<lparr>id_dev := 2, name := ''sensor-2'', current_pct := 45\<rparr>,
                   dev1\<lparr>id_dev := 3, name := ''sensor-3'', current_pct := 15,
                        status := ''critical''\<rparr>,
                   dev1\<lparr>id_dev := 4, name := ''sensor-4'', current_pct := 10,
                        status := ''critical''\<rparr>],
                seq_devices := 4\<rparr>"

definition db3 :: db where
  "db3 = db1\<lparr>battery_alerts :=
               [\<lparr>id_al = 1, device_id_al = 1, alert_type = ''low_battery'', threshold = 30,
                 current_value = 25, message = ''Battery low: 25.0%'', resolved = False,
                 created_at_al = ''2024-01-01 08:00:00''\<rparr>],
             seq_alerts := 1\<rparr>"

text \<open>
  \<open>db4\<close> holds two devices' readings: the device 1 reported 81.5 percent at ten o'clock
  and 80 percent at noon, the device 2 reported 5 percent at one o'clock. \<open>fleet5\<close> is a
  fleet of five devices whose exact mean, 50.15, is not a double.
\<close>

definition r_a :: BatteryReading where
  "r_a = \<lparr>id_rd = 1, device_id = 1, reading_time = ''2024-01-01T10:00:00'', battery_pct = 81.5,
           voltage_mv = None, temperature_c = None, signal_rssi = None, drain_rate = None\<rparr>"

definition r_b :: BatteryReading where
  "r_b = \<lparr>id_rd = 2, device_id = 1, reading_time = ''2024-01-01T12:00:00'', battery_pct = 80,
           voltage_mv = None, temperature_c = None, signal_rssi = None,
           drain_rate = Some (Finite 0.75)\<rparr>"

definition r_c :: BatteryReading where
  "r_c = \<lparr>id_rd = 3, device_id = 2, reading_time = ''2024-01-01T13:00:00'', battery_pct = 5,
           voltage_mv = None, temperature_c = None, signal_rssi = None, drain_rate = None\<rparr>"

definition db4 :: db where
  "db4 = db1\<lparr>iot_devices := [dev1\<lparr>current_pct := 80, last_seen := ''2024-01-01T12:00:00''\<rparr>],
             battery_readings := [r_a, r_b, r_c], seq_readings := 3\<rparr>"


text \<open>
  The average \<open>fleet_status\<close> computes. The rows come in ascending order of
  \<open>current_pct\<close>, so the sum runs over the sorted values.
\<close>

definition fleet_avg :: "IoTDevice list \<Rightarrow> pyfloat" where
  "fleet_avg ds =
     (if ds = [] then Finite 0
      else py_round (float_quot (py_sum (sort (map current_pct ds))) (real (length ds))) 1)"

section \<open>Rounding and row ids\<close>

lemma round_half_even_error: "\<bar>of_int (round_half_even x) - x\<bar> \<le> 1 / 2"
  unfolding round_half_even_def Let_def by (auto simp: abs_if) linarith+

lemma round_half_even_tie:
  "\<bar>of_int (round_half_even x) - x\<bar> = 1 / 2 \<Longrightarrow> even (round_half_even x)"
  unfolding round_half_even_def Let_def by (auto simp: abs_if split: if_splits) linarith+

lemma round_half_even_nonneg: "0 \<le> x \<Longrightarrow> 0 \<le> round_half_even x"
  unfolding round_half_even_def Let_def by (auto simp: le_floor_iff)

text \<open>
  The rounding to binary64 is the rounding to nearest, ties to even: a positive \<open>x\<close> lies
  between \<open>pow2 (floor_log2 x)\<close> and the next power of two, and the double of a nonzero \<open>x\<close>
  is \<open>m * pow2 e\<close> for the exponent \<open>e\<close> of its binade (not below \<open>-1074\<close>), with a mantissa
  \<open>m\<close> of at most 53 bits that is an integer nearest to \<open>x / pow2 e\<close>, even when two are
  nearest, and normalised above the subnormal range. So rounding keeps the sign and does
  not go below a power of two that the number reaches, and the elapsed hours the program
  computes are positive exactly when the difference of the timestamps is.
\<close>

lemma bit_length_bounds: "0 < n \<Longrightarrow> 2 ^ (bit_length n - 1) \<le> n \<and> n < 2 ^ bit_length n"
proof (induction n rule: bit_length.induct)
  case (1 n)
  show ?case
  proof (cases "n div 2 = 0")
    case True
    with "1.prems" have "n = 1" by (simp add: div_eq_0_iff)
    then show ?thesis
      by (simp add: bit_length.simps[of "Suc 0"] bit_length.simps[of 0])
  next
    case False
    then have pos: "0 < n div 2" by simp
    with "1.prems" "1.IH" have ih: "2 ^ (bit_length (n div 2) - 1) \<le> n div 2"
      "n div 2 < 2 ^ bit_length (n div 2)"
      by simp_all
    have bl: "bit_length n = Suc (bit_length (n div 2))"
      using "1.prems" by (simp add: bit_length.simps[of n])
    have b1: "0 < bit_length (n div 2)"
      using pos by (simp add: bit_length.simps[of "n div 2"])
    then obtain k where k: "bit_length (n div 2) = Suc k"
      by (cases "bit_length (n div 2)") simp_all
    have "2 * (n div 2) \<le> n" by simp
    moreover have "2 * 2 ^ k \<le> 2 * (n div 2)"
      using ih(1) by (simp add: k)
    ultimately have lo: "(2::nat) ^ bit_length (n div 2) \<le> n"
      by (simp add: k)
    have "n < 2 * (n div 2) + 2" by arith
    moreover have "2 * (n div 2) + 2 \<le> 2 * 2 ^ bit_length (n div 2)"
      using ih(2) by arith
    ultimately have hi: "n < 2 * 2 ^ bit_length (n div 2)"
      by (rule less_le_trans)
    show ?thesis
      using lo hi by (simp add: bl)
  qed
qed

lemma pow2_pos: "0 < pow2 e"
  by (simp add: pow2_def)

lemma pow2_nat: "pow2 (int n) = 2 ^ n"
  by (simp add: pow2_def)

lemma pow2_neg_nat: "pow2 (- int n) = 1 / 2 ^ n"
  by (cases "n = 0") (simp_all add: pow2_def)

lemma pow2_Suc: "pow2 (e + 1) = 2 * pow2 e"
proof (cases "0 \<le> e")
  case True
  then show ?thesis by (simp add: pow2_def nat_add_distrib)
next
  case False
  define n where "n = nat (- e - 1)"
  have e: "e = - int (Suc n)"
    using False by (simp add: n_def)
  have "pow2 (e + 1) = pow2 (- int n)" by (simp add: e)
  moreover have "pow2 e = pow2 (- int (Suc n))" by (simp only: e)
  ultimately show ?thesis by (simp only: pow2_neg_nat) simp
qed

lemma floor_log2_bounds:
  assumes "0 < x"
  shows "pow2 (floor_log2 x) \<le> x \<and> x < pow2 (floor_log2 x + 1)"
proof (cases "1 \<le> x")
  case True
  define n where "n = nat \<lfloor>x\<rfloor>"
  have n1: "0 < n" using True by (simp add: n_def)
  have n2: "real n \<le> x" using True by (simp add: n_def)
  have n3: "x < real n + 1" using True by (simp add: n_def)
  from bit_length_bounds[OF n1] have b: "2 ^ (bit_length n - 1) \<le> n" "n < 2 ^ bit_length n"
    by simp_all
  have bp: "0 < bit_length n"
    using n1 by (simp add: bit_length.simps[of n])
  then obtain k where k: "bit_length n = Suc k"
    by (cases "bit_length n") simp_all
  have f: "floor_log2 x = int k"
    using True by (simp add: floor_log2_def n_def[symmetric] k)
  have "real (2 ^ k) \<le> real n"
    using b(1) unfolding k by (simp only: of_nat_le_iff diff_Suc_1)
  then have r1: "(2::real) ^ k \<le> real n" by simp
  from r1 n2 have "(2::real) ^ k \<le> x" by (rule order_trans)
  then have lo: "pow2 (floor_log2 x) \<le> x"
    by (simp only: f pow2_nat)
  have "Suc n \<le> 2 ^ Suc k" using b(2) by (simp add: k)
  then have "real (Suc n) \<le> real (2 ^ Suc k)" by (simp only: of_nat_le_iff)
  then have r2: "real n + 1 \<le> (2::real) ^ Suc k" by simp
  from n3 r2 have "x < 2 ^ Suc k" by (rule less_le_trans)
  moreover have "pow2 (floor_log2 x + 1) = 2 ^ Suc k"
    by (simp add: f pow2_Suc pow2_nat)
  ultimately show ?thesis using lo by simp
next
  case False
  define n where "n = nat (\<lceil>1 / x\<rceil> - 1)"
  have y: "1 < 1 / x" using assms False by simp
  then have c: "2 \<le> \<lceil>1 / x\<rceil>" by linarith
  have n1: "0 < n" unfolding n_def using c by linarith
  have "0 \<le> \<lceil>1 / x\<rceil> - 1" using c by linarith
  then have "real n = of_int (\<lceil>1 / x\<rceil> - 1)"
    unfolding n_def by (rule of_nat_nat)
  then have rn: "real n = of_int \<lceil>1 / x\<rceil> - 1" by simp
  have n2: "real n < 1 / x" unfolding rn by linarith
  have n3: "1 / x \<le> real n + 1" unfolding rn by linarith
  from bit_length_bounds[OF n1] have b: "2 ^ (bit_length n - 1) \<le> n" "n < 2 ^ bit_length n"
    by simp_all
  have bp: "0 < bit_length n"
    using n1 by (simp add: bit_length.simps[of n])
  then obtain k where k: "bit_length n = Suc k"
    by (cases "bit_length n") simp_all
  have f: "floor_log2 x = - int (Suc k)"
    using False by (simp add: floor_log2_def n_def[symmetric] k)
  have "Suc n \<le> 2 ^ Suc k" using b(2) by (simp add: k)
  then have "real (Suc n) \<le> real (2 ^ Suc k)" by (simp only: of_nat_le_iff)
  then have r2: "real n + 1 \<le> (2::real) ^ Suc k" by simp
  from n3 r2 have "1 / x \<le> 2 ^ Suc k" by (rule order_trans)
  then have "1 \<le> 2 ^ Suc k * x"
    using assms by (simp add: field_simps)
  then have "1 / 2 ^ Suc k \<le> x"
    by (simp add: field_simps)
  then have lo: "pow2 (floor_log2 x) \<le> x"
    by (simp only: f pow2_neg_nat)
  have "real (2 ^ k) \<le> real n"
    using b(1) unfolding k by (simp only: of_nat_le_iff diff_Suc_1)
  then have r1: "(2::real) ^ k \<le> real n" by simp
  from r1 n2 have "2 ^ k < 1 / x" by (rule le_less_trans)
  then have "2 ^ k * x < 1"
    using assms by (simp add: field_simps)
  then have "x < 1 / 2 ^ k"
    by (simp add: field_simps)
  moreover have "pow2 (floor_log2 x + 1) = 1 / 2 ^ k"
  proof -
    have "floor_log2 x + 1 = - int k"
      by (simp add: f)
    then show ?thesis by (simp only: pow2_neg_nat)
  qed
  ultimately show ?thesis using lo by simp
qed

lemma pow2_powr: "pow2 e = 2 powr (of_int e)"
  by (simp add: pow2_def powr_real_of_int inverse_eq_divide)

lemma pow2_add: "pow2 (a + b) = pow2 a * pow2 b"
  by (simp add: pow2_powr powr_add)

lemma pow2_mono: "a \<le> b \<Longrightarrow> pow2 a \<le> pow2 b"
  by (simp add: pow2_powr)

lemma pow2_53: "pow2 53 = 2 ^ 53" "pow2 52 = 2 ^ 52"
  by (simp_all add: pow2_def)

lemma round_to_double_nearest:
  assumes "x \<noteq> 0"
  shows "\<exists>(m::int) e. round_to_double x = of_int m * pow2 e
            \<and> e = max (floor_log2 \<bar>x\<bar> - 52) (- 1074)
            \<and> \<bar>m\<bar> \<le> 2 ^ 53
            \<and> (- 1022 \<le> floor_log2 \<bar>x\<bar> \<longrightarrow> 2 ^ 52 \<le> \<bar>m\<bar>)
            \<and> \<bar>of_int m - x / pow2 e\<bar> \<le> 1 / 2
            \<and> (\<bar>of_int m - x / pow2 e\<bar> = 1 / 2 \<longrightarrow> even m)"
proof -
  define l where "l = floor_log2 \<bar>x\<bar>"
  define e where "e = max (l - 52) (- 1074)"
  define y where "y = x / pow2 e"
  define m where "m = round_half_even y"
  have p: "0 < pow2 e" by (rule pow2_pos)
  have ax: "0 < \<bar>x\<bar>" using assms by simp
  from floor_log2_bounds[OF ax] have lb: "pow2 l \<le> \<bar>x\<bar>" and ub: "\<bar>x\<bar> < pow2 (l + 1)"
    by (simp_all add: l_def)
  have r: "round_to_double x = of_int m * pow2 e"
    using assms by (simp add: round_to_double_def Let_def m_def y_def e_def l_def)
  have err: "\<bar>of_int m - y\<bar> \<le> 1 / 2"
    unfolding m_def by (rule round_half_even_error)
  have tie: "\<bar>of_int m - y\<bar> = 1 / 2 \<longrightarrow> even m"
    unfolding m_def using round_half_even_tie by blast
  have ay: "\<bar>y\<bar> = \<bar>x\<bar> / pow2 e"
    using p by (simp add: y_def)
  have "pow2 (l + 1) \<le> pow2 (e + 53)"
    by (rule pow2_mono) (simp add: e_def)
  with ub have "\<bar>x\<bar> < pow2 (e + 53)" by (rule less_le_trans)
  then have "\<bar>x\<bar> < pow2 e * 2 ^ 53"
    by (simp only: pow2_add pow2_53)
  then have y53: "\<bar>y\<bar> < 2 ^ 53"
    using p by (simp add: ay field_simps)
  have "\<bar>real_of_int m\<bar> \<le> \<bar>y\<bar> + 1 / 2"
    using err by linarith
  with y53 have "\<bar>real_of_int m\<bar> < 2 ^ 53 + 1" by linarith
  then have "real_of_int \<bar>m\<bar> < real_of_int (2 ^ 53 + 1)" by simp
  then have "\<bar>m\<bar> < 2 ^ 53 + 1" by (simp only: of_int_less_iff)
  then have hi: "\<bar>m\<bar> \<le> 2 ^ 53" by simp
  have lo: "- 1022 \<le> l \<longrightarrow> 2 ^ 52 \<le> \<bar>m\<bar>"
  proof
    assume "- 1022 \<le> l"
    then have el: "l = e + 52" by (simp add: e_def)
    have "pow2 e * 2 ^ 52 \<le> \<bar>x\<bar>"
      using lb by (simp only: el pow2_add pow2_53)
    then have "2 ^ 52 \<le> \<bar>y\<bar>"
      using p by (simp add: ay field_simps)
    moreover have "\<bar>y\<bar> - 1 / 2 \<le> \<bar>real_of_int m\<bar>"
      using err by linarith
    ultimately have "2 ^ 52 - 1 < \<bar>real_of_int m\<bar>" by linarith
    then have "real_of_int (2 ^ 52 - 1) < real_of_int \<bar>m\<bar>" by simp
    then have "2 ^ 52 - 1 < \<bar>m\<bar>" by (simp only: of_int_less_iff)
    then show "2 ^ 52 \<le> \<bar>m\<bar>" by simp
  qed
  from r hi lo err tie show ?thesis
    unfolding y_def e_def l_def
    by (intro exI[of _ m] exI[of _ "max (floor_log2 \<bar>x\<bar> - 52) (- 1074)"] conjI refl)
qed

lemma round_half_even_nonpos: "x \<le> 0 \<Longrightarrow> round_half_even x \<le> 0"
  unfolding round_half_even_def Let_def by (auto simp: floor_le_iff)

lemma pow2_less_iff: "(pow2 a < pow2 b) = (a < b)"
  by (simp add: pow2_powr)

lemma round_to_double_nonpos: "x \<le> 0 \<Longrightarrow> round_to_double x \<le> 0"
proof -
  assume x: "x \<le> 0"
  let ?e = "max (floor_log2 \<bar>x\<bar> - 52) (- 1074)"
  have "x / pow2 ?e \<le> 0"
    using x pow2_pos[of ?e] by (simp add: field_simps)
  then have "round_half_even (x / pow2 ?e) \<le> 0"
    by (rule round_half_even_nonpos)
  then have "real_of_int (round_half_even (x / pow2 ?e)) \<le> 0" by simp
  then have "real_of_int (round_half_even (x / pow2 ?e)) * pow2 ?e \<le> 0"
    using pow2_pos[of ?e] by (simp add: mult_le_0_iff)
  then show ?thesis
    by (simp add: round_to_double_def Let_def)
qed

lemma round_to_double_ge_pow2:
  assumes "pow2 k \<le> x" and "- 1022 \<le> k"
  shows "pow2 k \<le> round_to_double x"
proof -
  have xp: "0 < x" using assms(1) pow2_pos[of k] by linarith
  then have x0: "x \<noteq> 0" and ax: "\<bar>x\<bar> = x" by simp_all
  define l where "l = floor_log2 x"
  from floor_log2_bounds[OF xp] have lb: "pow2 l \<le> x" and ub: "x < pow2 (l + 1)"
    by (simp_all add: l_def)
  from assms(1) ub have "pow2 k < pow2 (l + 1)" by (rule le_less_trans)
  then have kl: "k \<le> l" by (simp add: pow2_less_iff)
  from round_to_double_nearest[OF x0] obtain m :: int and e where
    r: "round_to_double x = of_int m * pow2 e"
    and e: "e = max (floor_log2 \<bar>x\<bar> - 52) (- 1074)"
    and lo: "- 1022 \<le> floor_log2 \<bar>x\<bar> \<longrightarrow> 2 ^ 52 \<le> \<bar>m\<bar>"
    by blast
  have el: "e = l - 52" using kl assms(2) by (simp add: e ax l_def)
  have "- 1022 \<le> floor_log2 \<bar>x\<bar>" using kl assms(2) by (simp add: ax l_def)
  with lo have am: "2 ^ 52 \<le> \<bar>m\<bar>" by simp
  have "0 \<le> x / pow2 e" using xp pow2_pos[of e] by simp
  then have "0 \<le> round_half_even (x / pow2 e)" by (rule round_half_even_nonneg)
  moreover have "round_to_double x = of_int (round_half_even (x / pow2 e)) * pow2 e"
    using x0 by (simp add: round_to_double_def Let_def e)
  ultimately have "0 \<le> round_to_double x"
    using pow2_pos[of e] by simp
  then have "0 \<le> real_of_int m * pow2 e" by (simp only: r)
  then have "0 \<le> m" using pow2_pos[of e] by (simp add: zero_le_mult_iff)
  with am have "2 ^ 52 \<le> m" by simp
  then have "real_of_int (2 ^ 52) \<le> real_of_int m" by (simp only: of_int_le_iff)
  then have "2 ^ 52 \<le> real_of_int m" by simp
  then have "2 ^ 52 * pow2 e \<le> real_of_int m * pow2 e"
    using pow2_pos[of e] by simp
  moreover have "pow2 l = 2 ^ 52 * pow2 e"
  proof -
    have "l = 52 + e" by (simp add: el)
    then show ?thesis by (simp only: pow2_add pow2_53)
  qed
  moreover have "pow2 k \<le> pow2 l" using kl by (rule pow2_mono)
  ultimately have "pow2 k \<le> real_of_int m * pow2 e" by linarith
  then show ?thesis by (simp only: r)
qed

lemma elapsed_hours_positive: "(0 < float_div (total_seconds td) 3600) = (0 < td)"
proof (cases "0 < td")
  case True
  have p20: "pow2 (- 20) = 1 / 1048576" and p32: "pow2 (- 32) = 1 / 4294967296"
    by (simp_all add: pow2_def)
  have "1 \<le> real_of_int td" using True by simp
  then have "pow2 (- 20) \<le> real_of_int td / 1000000"
    by (simp add: p20)
  then have "pow2 (- 20) \<le> total_seconds td"
    unfolding total_seconds_def float_div_def by (rule round_to_double_ge_pow2) simp
  then have "pow2 (- 32) \<le> total_seconds td / 3600"
    by (simp add: p20 p32)
  then have "pow2 (- 32) \<le> float_div (total_seconds td) 3600"
    unfolding float_div_def by (rule round_to_double_ge_pow2) simp
  then have "0 < float_div (total_seconds td) 3600"
    using pow2_pos[of "- 32"] by linarith
  with True show ?thesis by simp
next
  case False
  then have "real_of_int td / 1000000 \<le> 0" by simp
  then have "total_seconds td \<le> 0"
    unfolding total_seconds_def float_div_def by (rule round_to_double_nonpos)
  then have "total_seconds td / 3600 \<le> 0" by simp
  then have "float_div (total_seconds td) 3600 \<le> 0"
    unfolding float_div_def by (rule round_to_double_nonpos)
  with False show ?thesis by simp
qed

text \<open>
  \<open>round(x, n)\<close> of a finite double is the double nearest to \<open>k / 10 ^ n\<close>, for an integer
  \<open>k\<close> nearest to \<open>x * 10 ^ n\<close> that is even when two are nearest.
\<close>

lemma py_round_Finite:
  "\<exists>k::int. py_round (Finite x) n = Finite (round_to_double (of_int k / 10 ^ n))
      \<and> \<bar>of_int k - x * 10 ^ n\<bar> \<le> 1 / 2
      \<and> (\<bar>of_int k - x * 10 ^ n\<bar> = 1 / 2 \<longrightarrow> even k)"
  using round_half_even_error[of "x * 10 ^ n"] round_half_even_tie[of "x * 10 ^ n"]
  by (intro exI[of _ "round_half_even (x * 10 ^ n)"]) (simp add: py_round_def)

lemma py_round_Infinity: "py_round (Infinity s) n = Infinity s"
  by (simp add: py_round_def)

lemma fold_max_ge_init: "(s::int) \<le> fold max ids s"
  by (induction ids arbitrary: s) (auto intro: order_trans[OF max.cobounded2])

lemma fold_max_ge_elem: "(x::int) \<in> set ids \<Longrightarrow> x \<le> fold max ids s"
proof (induction ids arbitrary: s)
  case Nil
  then show ?case by simp
next
  case (Cons a ids)
  then show ?case
    using fold_max_ge_init[of "max a s" ids] by auto
qed

lemma next_rowid_fresh: "x \<in> set ids \<Longrightarrow> x < next_rowid s ids"
  using fold_max_ge_elem[of x ids s] by (simp add: next_rowid_def)

lemma next_rowid_gt_seq: "s < next_rowid s ids"
  using fold_max_ge_init[of s ids] by (simp add: next_rowid_def)

section \<open>The alert policy and the ingestion, step by step\<close>

lemma fire_alert_tables:
  "iot_devices (fst (fire_alert e st did atype thr cur msg)) = iot_devices st"
  "battery_readings (fst (fire_alert e st did atype thr cur msg)) = battery_readings st"
  by (simp_all add: fire_alert_def Let_def)

lemma check_alerts_tables:
  "iot_devices (fst (check_alerts e st did pct)) = iot_devices st"
  "battery_readings (fst (check_alerts e st did pct)) = battery_readings st"
  by (simp_all add: check_alerts_def fire_alert_tables)

lemma check_alerts_Inr:
  assumes "check_alerts e st did pct = (st', Inr u)"
  shows "battery_alerts st' = battery_alerts st @
           (if pct \<le> 15 then
              [alert_row e st did ''critical'' 15 pct
                 (''CRITICAL: battery at '' @ fmt_1f (signbit e pct) pct @ ''%!'')]
            else if pct \<le> 30 then
              [alert_row e st did ''low_battery'' 30 pct
                 (''Battery low: '' @ fmt_1f (signbit e pct) pct @ ''%'')]
            else [])"
  using assms
  by (auto simp: check_alerts_def fire_alert_def alert_row_def Let_def
      CRITICAL_PCT_def LOW_PCT_def split: if_splits)

lemma check_alerts_Inl:
  assumes "check_alerts e st did pct = (st', Inl err)"
  shows "st' = st" "err = OperationalError" "pct \<le> 30"
  using assms
  by (auto simp: check_alerts_def fire_alert_def Let_def CRITICAL_PCT_def LOW_PCT_def split: if_splits)

lemma check_alerts_no_fault:
  assumes "\<not> fault e InsertAlert" "\<not> fault e CommitAlert"
  shows "snd (check_alerts e st did pct) = Inr ()"
  using assms by (simp add: check_alerts_def fire_alert_def Let_def)

lemma record_reading_Inr:
  assumes "record_reading e ts st did pct vmv tc rssi = (st', Inr r)"
  obtains dr where
    "compute_drain_rate e ts (select_prev st did) pct = Inr dr"
    "r = reading_row st ts did pct vmv tc rssi dr"
    "check_alerts e (update_device (insert_reading st r) pct ts (new_status pct) did) did pct
       = (st', Inr ())"
  using assms
  by (auto simp: record_reading_def reading_row_def Let_def split: if_splits sum.splits prod.splits)

lemma record_reading_Inl:
  assumes "record_reading e ts st did pct vmv tc rssi = (st', Inl err)"
  shows "st' = st \<or>
         (\<exists>dr. compute_drain_rate e ts (select_prev st did) pct = Inr dr \<and>
               st' = update_device (insert_reading st (reading_row st ts did pct vmv tc rssi dr))
                       pct ts (new_status pct) did)"
  using assms
  by (auto simp: record_reading_def reading_row_def Let_def
      split: if_splits sum.splits prod.splits dest: check_alerts_Inl(1))

lemma record_reading_returns:
  assumes "\<forall>s. \<not> fault e s" "compute_drain_rate e ts (select_prev st did) pct = Inr dr"
  shows "\<exists>st'. record_reading e ts st did pct vmv tc rssi
           = (st', Inr (reading_row st ts did pct vmv tc rssi dr))"
proof -
  let ?r = "reading_row st ts did pct vmv tc rssi dr"
  let ?w = "update_device (insert_reading st ?r) pct ts (new_status pct) did"
  have "snd (check_alerts e ?w did pct) = Inr ()"
    using assms(1) by (simp add: check_alerts_no_fault)
  then obtain st' where "check_alerts e ?w did pct = (st', Inr ())"
    by (cases "check_alerts e ?w did pct") auto
  then show ?thesis
    using assms by (auto simp: record_reading_def reading_row_def Let_def)
qed

lemma find_update_row:
  "find (\<lambda>d. id_dev d = did)
     (map (\<lambda>d. if id_dev d = did then d\<lparr>current_pct := p, last_seen := t, status := s\<rparr> else d) ds)
   = map_option (\<lambda>d. d\<lparr>current_pct := p, last_seen := t, status := s\<rparr>)
       (find (\<lambda>d. id_dev d = did) ds)"
  by (induction ds) auto

lemma get_device_update:
  "get_device (update_device st p t s did) did
     = map_option (\<lambda>d. d\<lparr>current_pct := p, last_seen := t, status := s\<rparr>) (get_device st did)"
  by (simp add: get_device_def update_device_def find_update_row)

lemma get_device_cong: "iot_devices a = iot_devices b \<Longrightarrow> get_device a did = get_device b did"
  by (simp add: get_device_def)

lemma iot_devices_after:
  assumes "record_reading e ts st did pct vmv tc rssi = (st', Inr r)"
  shows "iot_devices st' = iot_devices (update_device st pct ts (new_status pct) did)"
proof -
  from assms obtain dr where
    c: "check_alerts e (update_device (insert_reading st r) pct ts (new_status pct) did) did pct
          = (st', Inr ())"
    by (rule record_reading_Inr)
  have "iot_devices st' = iot_devices (update_device (insert_reading st r) pct ts (new_status pct) did)"
    using check_alerts_tables(1)[of e "update_device (insert_reading st r) pct ts (new_status pct) did" did pct]
    by (simp add: c)
  then show ?thesis by (simp add: update_device_def insert_reading_def)
qed

lemma new_status_cases:
  "(new_status pct = ''critical'') = (pct \<le> 15)"
  "(new_status pct = ''warning'') = (15 < pct \<and> pct \<le> 30)"
  "(new_status pct = ''online'') = (30 < pct)"
  "new_status pct \<noteq> ''offline''"
  by (auto simp: new_status_def CRITICAL_PCT_def LOW_PCT_def)

lemma update_device_rows:
  assumes "d' \<in> set (iot_devices (update_device st p t s did))" and "id_dev d' = did"
  shows "current_pct d' = p \<and> last_seen d' = t \<and> status d' = s"
proof -
  have "set (iot_devices (update_device st p t s did))
          = (\<lambda>d. if id_dev d = did then d\<lparr>current_pct := p, last_seen := t, status := s\<rparr> else d)
              ` set (iot_devices st)"
    unfolding update_device_def by simp
  then have "d' \<in> (\<lambda>d. if id_dev d = did then d\<lparr>current_pct := p, last_seen := t, status := s\<rparr> else d)
              ` set (iot_devices st)"
    using assms(1) by (rule subst)
  then obtain d where
    d': "d' = (if id_dev d = did then d\<lparr>current_pct := p, last_seen := t, status := s\<rparr> else d)"
    by (rule imageE)
  show ?thesis
  proof (cases "id_dev d = did")
    case True
    with d' have "d' = d\<lparr>current_pct := p, last_seen := t, status := s\<rparr>" by simp
    then show ?thesis by simp
  next
    case False
    with d' have "d' = d" by simp
    with False assms(2) show ?thesis by simp
  qed
qed

section \<open>The prior reading and the drain rate\<close>

lemma latest_reading_None: "(latest_reading rs = None) = (rs = [])"
  by (induction rs) (auto split: option.splits)

lemma latest_reading_mem: "latest_reading rs = Some m \<Longrightarrow> m \<in> set rs"
  by (induction rs arbitrary: m) (auto split: option.splits if_splits)

lemma latest_reading_max:
  "latest_reading rs = Some m \<Longrightarrow> r \<in> set rs \<Longrightarrow> reading_time r \<le> reading_time m"
proof (induction rs arbitrary: m)
  case Nil
  then show ?case by simp
next
  case (Cons a rs)
  show ?case
  proof (cases "latest_reading rs")
    case None
    then have "rs = []" by (simp add: latest_reading_None)
    with Cons.prems None show ?thesis by simp
  next
    case (Some m')
    have ih: "r \<in> set rs \<Longrightarrow> reading_time r \<le> reading_time m'"
      using Cons.IH[OF Some] .
    show ?thesis
    proof (cases "reading_time a < reading_time m'")
      case True
      with Cons.prems(1) Some have "m = m'" by simp
      with Cons.prems(2) ih True show ?thesis by auto
    next
      case False
      with Cons.prems(1) Some have "m = a" by simp
      with Cons.prems(2) ih False show ?thesis by auto
    qed
  qed
qed

lemma select_prev_None:
  "(select_prev st did = None) = (\<forall>r \<in> set (battery_readings st). device_id r \<noteq> did)"
  by (simp add: select_prev_def latest_reading_None filter_empty_conv)

lemma select_prev_latest:
  assumes "select_prev st did = Some (p, t)"
  shows "\<exists>m \<in> set (battery_readings st). device_id m = did \<and> battery_pct m = p
            \<and> reading_time m = t
            \<and> (\<forall>r \<in> set (battery_readings st). device_id r = did \<longrightarrow> reading_time r \<le> t)"
proof -
  let ?rs = "filter (\<lambda>r. device_id r = did) (battery_readings st)"
  from assms obtain m where m: "latest_reading ?rs = Some m"
    and p: "battery_pct m = p" and t: "reading_time m = t"
    by (auto simp: select_prev_def)
  have "m \<in> set ?rs" using m by (rule latest_reading_mem)
  moreover have "\<forall>r \<in> set ?rs. reading_time r \<le> t"
    using latest_reading_max[OF m] t by auto
  ultimately show ?thesis using p t by auto
qed

lemma compute_drain_rate_cases:
  "compute_drain_rate e ts None pct = Inr None"
  "fromisoformat e ts = None \<Longrightarrow> compute_drain_rate e ts (Some (pp, pt)) pct = Inr None"
  "fromisoformat e pt = None \<Longrightarrow> compute_drain_rate e ts (Some (pp, pt)) pct = Inr None"
  "fromisoformat e ts = Some t1 \<Longrightarrow> fromisoformat e pt = Some t0 \<Longrightarrow> dt_sub t1 t0 = Inr td \<Longrightarrow>
     compute_drain_rate e ts (Some (pp, pt)) pct =
       Inr (if 0 < float_div (total_seconds td) 3600
            then Some (py_round (float_quot (float_sub pp pct) (float_div (total_seconds td) 3600)) 4)
            else None)"
  "fromisoformat e ts = Some t1 \<Longrightarrow> fromisoformat e pt = Some t0 \<Longrightarrow> dt_sub t1 t0 = Inl err \<Longrightarrow>
     compute_drain_rate e ts (Some (pp, pt)) pct = Inl err"
  by (auto simp: compute_drain_rate_def py_truediv_def Let_def split: option.splits)

lemma record_reading_drain:
  assumes "\<forall>s. \<not> fault e s" "compute_drain_rate e ts (select_prev st did) pct = Inr dr"
  shows "\<exists>st' r. record_reading e ts st did pct vmv tc rssi = (st', Inr r) \<and> drain_rate r = dr"
proof -
  from record_reading_returns[OF assms] obtain st' where
    "record_reading e ts st did pct vmv tc rssi = (st', Inr (reading_row st ts did pct vmv tc rssi dr))"
    by blast
  moreover have "drain_rate (reading_row st ts did pct vmv tc rssi dr) = dr"
    by (simp add: reading_row_def)
  ultimately show ?thesis by blast
qed

text \<open>
  The row the SELECT of the prior reading returns, stated on the table: a reading of the
  device with the greatest \<open>reading_time\<close>.
\<close>

lemma select_prev_time:
  assumes "m \<in> set (battery_readings st)" "device_id m = did"
    and "\<forall>r \<in> set (battery_readings st). device_id r = did \<longrightarrow> reading_time r \<le> reading_time m"
  shows "\<exists>m' \<in> set (battery_readings st). device_id m' = did
           \<and> reading_time m' = reading_time m
           \<and> select_prev st did = Some (battery_pct m', reading_time m)"
proof -
  have "select_prev st did \<noteq> None"
    using assms(1,2) by (auto simp: select_prev_None)
  then obtain p t where sp: "select_prev st did = Some (p, t)"
    by (cases "select_prev st did") auto
  from select_prev_latest[OF sp] obtain m' where
    m': "m' \<in> set (battery_readings st)" "device_id m' = did" "battery_pct m' = p"
    "reading_time m' = t"
    "\<forall>r \<in> set (battery_readings st). device_id r = did \<longrightarrow> reading_time r \<le> t"
    by blast
  have "reading_time m \<le> t" using m'(5) assms(1,2) by blast
  moreover have "t \<le> reading_time m" using assms(3) m'(1,2,4) by blast
  ultimately have t: "t = reading_time m" by simp
  have "device_id m' = did \<and> reading_time m' = reading_time m
          \<and> select_prev st did = Some (battery_pct m', reading_time m)"
    using sp m'(2,3,4) t by simp
  with m'(1) show ?thesis by (rule rev_bexI)
qed

lemma select_prev_of_latest:
  assumes "m \<in> set (battery_readings st)" "device_id m = did"
    and "\<forall>r \<in> set (battery_readings st). device_id r = did \<longrightarrow> reading_time r \<le> reading_time m"
    and "\<forall>r \<in> set (battery_readings st).
           device_id r = did \<and> reading_time r = reading_time m \<longrightarrow> battery_pct r = battery_pct m"
  shows "select_prev st did = Some (battery_pct m, reading_time m)"
proof -
  from select_prev_time[OF assms(1,2,3)] obtain m' where
    "m' \<in> set (battery_readings st)" "device_id m' = did" "reading_time m' = reading_time m"
    "select_prev st did = Some (battery_pct m', reading_time m)"
    by blast
  moreover from this assms(4) have "battery_pct m' = battery_pct m" by blast
  ultimately show ?thesis by simp
qed

section \<open>Evaluation of the concrete runs\<close>

lemmas iso_parse_defs = iso_parse_def digit_of_def parse_tail_def parse_offset_def
  days_in_month_def is_leap_def days_before_year_def days_before_month_def upt_rec

lemma iso_parse_10h:
  "iso_parse ''2024-01-01T10:00:00'' = Some \<lparr>micros = 63839700000000000, utcoffset = None\<rparr>"
  by (simp add: iso_parse_defs)

lemma iso_parse_11h:
  "iso_parse ''2024-01-01T11:00:00'' = Some \<lparr>micros = 63839703600000000, utcoffset = None\<rparr>"
  by (simp add: iso_parse_defs)

lemma env0_no_fault: "\<forall>s. \<not> fault env0 s"
  by (simp add: env0_def)

lemma fmt_1f_10: "fmt_1f False 10 = ''10.0''"
  by (simp add: fmt_1f_def round_half_even_def str_nat.simps digit_char_def)

lemma signbit_env0: "signbit env0 x = (x < 0)"
  by (simp add: signbit_def env0_def)

lemma select_prev_db1: "select_prev db1 1 = None"
  by (simp add: select_prev_def db1_def db0_def)

lemma select_prev_db2: "select_prev db2 1 = Some (80, ''2024-01-01T10:00:00'')"
  by (simp add: select_prev_def db2_def db1_def db0_def r80_def)

lemma get_device_db1: "get_device db1 1 = Some dev1"
  by (simp add: get_device_def db1_def db0_def dev1_def)

text \<open>
  The doubles of the concrete runs. 800 minutes are \<open>13.333333333333334\<close> hours; a drop of
  a quarter percent in that time is \<open>0.01875\<close> percent an hour, of which the nearest double
  is below \<open>0.01875\<close>, and Python's \<open>round\<close> gives the double \<open>0.0187\<close>. The five devices
  of \<open>fleet5\<close> sum to \<open>250.75\<close>; a fifth of it is the double below \<open>50.15\<close>, rounded to the
  double \<open>50.1\<close>.
\<close>

lemmas float_eval = round_to_double_def floor_log2_def bit_length.simps pow2_def
  round_half_even_def fl_def float_div_def float_sub_def float_add_def float_quot_def
  py_round_def total_seconds_def

lemma iso_parse_12h:
  "iso_parse ''2024-01-01T12:00:00'' = Some \<lparr>micros = 63839707200000000, utcoffset = None\<rparr>"
  by (simp add: iso_parse_defs)

lemma iso_parse_next_day:
  "iso_parse ''2024-01-02T01:20:00'' = Some \<lparr>micros = 63839755200000000, utcoffset = None\<rparr>"
  by (simp add: iso_parse_defs)

lemma elapsed_800_minutes:
  "float_div (total_seconds 48000000000) 3600 = 7505999378950827 / 562949953421312"
  by (simp add: float_eval)

lemma quotient_800_minutes:
  "float_quot (float_sub 80 79.75) (7505999378950827 / 562949953421312)
     = Finite (5404319552844595 / 288230376151711744)"
  by (simp add: float_eval)

lemma round_800_minutes:
  "py_round (Finite (5404319552844595 / 288230376151711744)) 4
     = Finite (2694954017018505 / 144115188075855872)"
  by (simp add: float_eval)

lemma elapsed_zero: "float_div (total_seconds 0) 3600 = 0"
  by (simp add: float_eval)

lemma db4_latest:
  "r_b \<in> set (battery_readings db4)" "device_id r_b = 1"
  "\<forall>r \<in> set (battery_readings db4). device_id r = 1 \<longrightarrow> reading_time r \<le> reading_time r_b"
  "\<forall>r \<in> set (battery_readings db4).
     device_id r = 1 \<and> reading_time r = reading_time r_b \<longrightarrow> battery_pct r = battery_pct r_b"
  "reading_time r_b = ''2024-01-01T12:00:00''" "battery_pct r_b = 80"
  by (simp_all add: db4_def r_a_def r_b_def r_c_def)

lemmas fmt_eval = fmt_1f_def round_half_even_def str_nat.simps digit_char_def

lemma fmt_1f_values:
  "fmt_1f False (959 / 32) = ''30.0''"
  "fmt_1f False (49 / 4) = ''12.2''"
  "fmt_1f True 0 = ''-0.0''"
  by (simp_all add: fmt_eval)





section \<open>Tables after a successful ingestion\<close>

lemma alert_row_cong:
  "seq_alerts a = seq_alerts b \<Longrightarrow> battery_alerts a = battery_alerts b \<Longrightarrow>
     alert_row e a did atype thr cur msg = alert_row e b did atype thr cur msg"
  by (simp add: alert_row_def)

lemma record_reading_tables:
  assumes "record_reading e ts st did pct vmv tc rssi = (st', Inr r)"
  shows "battery_readings st' = battery_readings st @ [r]"
    and "iot_devices st' = iot_devices (update_device st pct ts (new_status pct) did)"
    and "battery_alerts st' = battery_alerts st @
           (if pct \<le> 15 then
              [alert_row e st did ''critical'' 15 pct
                 (''CRITICAL: battery at '' @ fmt_1f (signbit e pct) pct @ ''%!'')]
            else if pct \<le> 30 then
              [alert_row e st did ''low_battery'' 30 pct
                 (''Battery low: '' @ fmt_1f (signbit e pct) pct @ ''%'')]
            else [])"
proof -
  let ?w = "update_device (insert_reading st r) pct ts (new_status pct) did"
  from assms obtain dr where c: "check_alerts e ?w did pct = (st', Inr ())"
    by (rule record_reading_Inr)
  have w: "battery_readings ?w = battery_readings st @ [r]" "seq_alerts ?w = seq_alerts st"
    "battery_alerts ?w = battery_alerts st"
    by (simp_all add: update_device_def insert_reading_def)
  have "battery_readings st' = battery_readings ?w"
    using check_alerts_tables(2)[of e ?w did pct] by (simp add: c)
  then show "battery_readings st' = battery_readings st @ [r]"
    by (simp add: w)
  show "iot_devices st' = iot_devices (update_device st pct ts (new_status pct) did)"
    using assms by (rule iot_devices_after)
  show "battery_alerts st' = battery_alerts st @
           (if pct \<le> 15 then
              [alert_row e st did ''critical'' 15 pct
                 (''CRITICAL: battery at '' @ fmt_1f (signbit e pct) pct @ ''%!'')]
            else if pct \<le> 30 then
              [alert_row e st did ''low_battery'' 30 pct
                 (''Battery low: '' @ fmt_1f (signbit e pct) pct @ ''%'')]
            else [])"
    using check_alerts_Inr[OF c] alert_row_cong[OF w(2) w(3)] by (simp add: w)
qed

lemma find_append_fresh:
  "\<forall>x \<in> set xs. \<not> P x \<Longrightarrow> P y \<Longrightarrow> find P (xs @ [y]) = Some y"
  by (induction xs) simp_all

lemma filter_key_distinct:
  "distinct (map k xs) \<Longrightarrow> find (\<lambda>x. k x = v) xs = Some x0 \<Longrightarrow> filter (\<lambda>x. k x = v) xs = [x0]"
proof (induction xs)
  case Nil
  then show ?case by simp
next
  case (Cons a xs)
  show ?case
  proof (cases "k a = v")
    case True
    with Cons.prems(2) have a: "a = x0" by simp
    have "\<forall>x \<in> set xs. k x \<noteq> v"
      using Cons.prems(1) True by (auto simp: image_iff)
    then have "filter (\<lambda>x. k x = v) xs = []"
      by (simp add: filter_empty_conv)
    with True a show ?thesis by simp
  next
    case False
    with Cons show ?thesis by simp
  qed
qed

lemma count_if_split:
  "count_if P xs = count_if P (filter (\<lambda>x. \<not> Q x) xs) + count_if P (filter Q xs)"
  unfolding count_if_def by (induction xs) simp_all

lemma update_device_ids:
  "map id_dev (iot_devices (update_device st p t s did)) = map id_dev (iot_devices st)"
  by (simp add: update_device_def comp_def if_distrib cong: if_cong)

lemma update_device_unknown:
  assumes "get_device st did = None"
  shows "iot_devices (update_device st p t s did) = iot_devices st"
proof -
  have "\<forall>d \<in> set (iot_devices st). id_dev d \<noteq> did"
    using assms by (simp add: get_device_def find_None_iff)
  then have "map (\<lambda>d. if id_dev d = did then d\<lparr>current_pct := p, last_seen := t, status := s\<rparr> else d)
               (iot_devices st) = map (\<lambda>d. d) (iot_devices st)"
    by (intro map_cong) simp_all
  then show ?thesis by (simp add: update_device_def)
qed

lemma add_device_returns:
  assumes "nm \<notin> set (map name (iot_devices st))"
  shows "\<exists>st' res. add_device e ts st nm dtype loc btype cap fw nts = (st', Inr res)"
  using assms by (simp add: add_device_def Let_def)

lemma record_reading_new_alerts:
  assumes "record_reading e ts st did pct vmv tc rssi = (st', Inr r)"
  shows "\<exists>new. battery_alerts st' = battery_alerts st @ new
           \<and> length new = (if pct \<le> 30 then 1 else 0)
           \<and> (\<forall>a \<in> set new. device_id_al a = did \<and> \<not> resolved a \<and> current_value a = pct)"
  using record_reading_tables(3)[OF assms] by (simp add: alert_row_def)

lemma record_reading_mixed_offsets:
  assumes "\<not> fault e SelectPrev" "select_prev st did = Some (pp, pt)"
    and "fromisoformat e ts = Some t1" "fromisoformat e pt = Some t0"
    and "utcoffset t1 = None" "utcoffset t0 = Some off"
  shows "record_reading e ts st did pct vmv tc rssi = (st, Inl TypeError)"
proof -
  have "dt_sub t1 t0 = Inl TypeError"
    using assms(5,6) by (simp add: dt_sub_def)
  then have "compute_drain_rate e ts (select_prev st did) pct = Inl TypeError"
    using assms(2,3,4) by (simp add: compute_drain_rate_cases(5))
  then show ?thesis
    using assms(1) by (simp add: record_reading_def)
qed

lemma record_reading_fault_before_commit:
  assumes "fault e SelectPrev \<or> fault e InsertReading \<or> fault e UpdateDevice \<or> fault e CommitReading"
  shows "fst (record_reading e ts st did pct vmv tc rssi) = st"
    and "\<exists>err. snd (record_reading e ts st did pct vmv tc rssi) = Inl err"
  using assms by (auto simp: record_reading_def Let_def split: sum.splits)

lemma record_reading_accepts_unknown:
  assumes "get_device st did = None" and "\<forall>s. \<not> fault e s"
    and "compute_drain_rate e ts (select_prev st did) pct = Inr dr"
  shows "\<exists>st' r. record_reading e ts st did pct vmv tc rssi = (st', Inr r)
           \<and> device_id r = did
           \<and> battery_readings st' = battery_readings st @ [r]
           \<and> iot_devices st' = iot_devices st
           \<and> length (battery_alerts st') = length (battery_alerts st) + (if pct \<le> 30 then 1 else 0)"
proof -
  from record_reading_returns[OF assms(2,3)] obtain st' where
    rr: "record_reading e ts st did pct vmv tc rssi
           = (st', Inr (reading_row st ts did pct vmv tc rssi dr))"
    by blast
  have "device_id (reading_row st ts did pct vmv tc rssi dr) = did"
    by (simp add: reading_row_def)
  moreover have "iot_devices st' = iot_devices st"
    using record_reading_tables(2)[OF rr] by (simp add: update_device_unknown[OF assms(1)])
  moreover have "length (battery_alerts st') = length (battery_alerts st) + (if pct \<le> 30 then 1 else 0)"
    using record_reading_tables(3)[OF rr] by simp
  ultimately show ?thesis
    using rr record_reading_tables(1)[OF rr] by blast
qed

section \<open>Fleet aggregation\<close>

lemma count_if_length: "count_if P xs = int (length (filter P xs))"
  unfolding count_if_def by (induction xs) simp_all

lemma count_if_sort_key: "count_if P (sort_key f xs) = count_if P xs"
  by (simp add: count_if_length filter_sort)

lemma map_insort_key_self: "map f (insort_key f x xs) = insort (f x) (map f xs)"
  by (induction xs) simp_all

lemma map_sort_key_self: "map f (sort_key f xs) = sort (map f xs)"
  by (induction xs) (simp_all add: map_insort_key_self)

lemma count_if_partition:
  "count_if (\<lambda>d. current_pct d \<ge> 60) ds
   + count_if (\<lambda>d. 30 \<le> current_pct d \<and> current_pct d < 60) ds
   + count_if (\<lambda>d. 15 \<le> current_pct d \<and> current_pct d < 30) ds
   + count_if (\<lambda>d. current_pct d < 15) ds = int (length ds)"
  unfolding count_if_def by (induction ds) auto

lemma sort_key_Nil_iff: "(sort_key f xs = []) = (xs = [])"
  by (metis length_0_conv length_sort)

lemma fleet_status_eq:
  "fleet_status st =
     Inr \<lparr>total_devices = int (length (iot_devices st)),
          avg_battery_pct = fleet_avg (iot_devices st),
          healthy = count_if (\<lambda>d. current_pct d \<ge> 60) (iot_devices st),
          warning = count_if (\<lambda>d. 30 \<le> current_pct d \<and> current_pct d < 60) (iot_devices st),
          low = count_if (\<lambda>d. 15 \<le> current_pct d \<and> current_pct d < 30) (iot_devices st),
          critical = count_if (\<lambda>d. current_pct d < 15) (iot_devices st),
          active_alerts = int (length (filter (\<lambda>a. \<not> resolved a) (battery_alerts st)))\<rparr>"
  by (simp add: fleet_status_def list_devices_def Let_def py_truediv_def count_if_sort_key
      map_sort_key_self fleet_avg_def sort_key_Nil_iff)

lemma health_label_cases:
  "(health_label d = ''healthy'') = (current_pct d \<ge> 60)"
  "(health_label d = ''warning'') = (30 \<le> current_pct d \<and> current_pct d < 60)"
  "(health_label d = ''low'') = (15 \<le> current_pct d \<and> current_pct d < 30)"
  "(health_label d = ''critical'') = (current_pct d < 15)"
  by (auto simp: health_label_def)

lemma count_if_map: "count_if P (map g xs) = count_if (\<lambda>x. P (g x)) xs"
  by (simp add: count_if_length filter_map comp_def)

lemma fleet4_devices:
  "map current_pct (iot_devices fleet4) = [80, 45, 15, 10]"
  "length (iot_devices fleet4) = 4"
  "iot_devices fleet4 \<noteq> []"
  by (simp_all add: fleet4_def db0_def dev1_def)



section \<open>Decimal digits of the printed value\<close>

text \<open>
  \<open>str_nat\<close> writes the decimal digits of a number without leading zero, and
  \<open>digits_val\<close> reads them back. The string \<open>{pct:.1f}\<close> is a sign, the digits of the integer
  part, a point and one digit; the number \<open>m\<close> of tenths it denotes is nearest to ten times
  the absolute value, and even when two are nearest.
\<close>

lemma digit_of_digit_char: "d < 10 \<Longrightarrow> digit_of (digit_char d) = Some d"
proof -
  assume "d < 10"
  then have "d = 0 \<or> d = 1 \<or> d = 2 \<or> d = 3 \<or> d = 4 \<or> d = 5 \<or> d = 6 \<or> d = 7 \<or> d = 8 \<or> d = 9"
    by arith
  then show ?thesis
    by (elim disjE) (simp_all add: digit_of_def digit_char_def)
qed

lemma digit_char_zero_iff: "d < 10 \<Longrightarrow> (digit_char d = CHR ''0'') = (d = 0)"
proof -
  assume "d < 10"
  then have "d = 0 \<or> d = 1 \<or> d = 2 \<or> d = 3 \<or> d = 4 \<or> d = 5 \<or> d = 6 \<or> d = 7 \<or> d = 8 \<or> d = 9"
    by arith
  then show ?thesis
    by (elim disjE) (simp_all add: digit_char_def)
qed

lemma digits_val_append:
  "digits_val (xs @ ys) acc =
     (case digits_val xs acc of None \<Rightarrow> None | Some a \<Rightarrow> digits_val ys a)"
  by (induction xs arbitrary: acc) (simp_all split: option.splits)

lemma digits_val_str_nat: "digits_val (str_nat n) 0 = Some n"
proof (induction n rule: str_nat.induct)
  case (1 n)
  show ?case
  proof (cases "n < 10")
    case True
    then show ?thesis
      by (simp add: str_nat.simps[of n] digit_of_digit_char)
  next
    case False
    then have ih: "digits_val (str_nat (n div 10)) 0 = Some (n div 10)"
      using "1.IH" by simp
    have "digit_of (digit_char (n mod 10)) = Some (n mod 10)"
      by (simp add: digit_of_digit_char)
    then show ?thesis
      using False by (simp add: str_nat.simps[of n] digits_val_append ih)
  qed
qed

lemma str_nat_not_Nil: "str_nat n \<noteq> []"
  by (simp add: str_nat.simps[of n])

lemma str_nat_digit: "d < 10 \<Longrightarrow> str_nat d = [digit_char d]"
  by (simp add: str_nat.simps[of d])

lemma str_nat_hd: "0 < n \<Longrightarrow> hd (str_nat n) \<noteq> CHR ''0''"
proof (induction n rule: str_nat.induct)
  case (1 n)
  show ?case
  proof (cases "n < 10")
    case True
    with "1.prems" show ?thesis
      by (simp add: str_nat.simps[of n] digit_char_zero_iff)
  next
    case False
    then have "0 < n div 10" by simp
    with False "1.IH" have "hd (str_nat (n div 10)) \<noteq> CHR ''0''" by simp
    then show ?thesis
      using False str_nat_not_Nil[of "n div 10"] by (simp add: str_nat.simps[of n])
  qed
qed

lemma str_nat_leading: "str_nat n = ''0'' \<or> hd (str_nat n) \<noteq> CHR ''0''"
proof (cases "n = 0")
  case True
  then show ?thesis by (simp add: str_nat.simps[of 0] digit_char_def)
next
  case False
  then show ?thesis using str_nat_hd[of n] by simp
qed

lemma fmt_1f_digits:
  "\<exists>(m::nat) ip fd.
      fmt_1f neg x = (if neg then ''-'' else '''') @ ip @ ''.'' @ [fd]
      \<and> digits_val ip 0 = Some (m div 10) \<and> digits_val [fd] 0 = Some (m mod 10)
      \<and> ip \<noteq> [] \<and> (ip = ''0'' \<or> hd ip \<noteq> CHR ''0'')
      \<and> \<bar>real m - \<bar>x\<bar> * 10\<bar> \<le> 1 / 2
      \<and> (\<bar>real m - \<bar>x\<bar> * 10\<bar> = 1 / 2 \<longrightarrow> even m)"
proof -
  define k where "k = round_half_even (\<bar>x\<bar> * 10)"
  define m where "m = nat k"
  have k0: "0 \<le> k"
    unfolding k_def by (rule round_half_even_nonneg) simp
  then have mk: "real m = of_int k" "even m = even k"
    by (simp_all add: m_def even_nat_iff)
  have e: "\<bar>real m - \<bar>x\<bar> * 10\<bar> \<le> 1 / 2"
    unfolding mk k_def by (rule round_half_even_error)
  have t: "\<bar>real m - \<bar>x\<bar> * 10\<bar> = 1 / 2 \<longrightarrow> even m"
    unfolding mk k_def using round_half_even_tie by blast
  have f: "fmt_1f neg x
             = (if neg then ''-'' else '''') @ str_nat (m div 10) @ ''.'' @ [digit_char (m mod 10)]"
    by (simp add: fmt_1f_def Let_def m_def k_def str_nat_digit)
  have d: "digits_val [digit_char (m mod 10)] 0 = Some (m mod 10)"
    by (simp add: digit_of_digit_char)
  show ?thesis
    using f digits_val_str_nat[of "m div 10"] d str_nat_not_Nil[of "m div 10"]
      str_nat_leading[of "m div 10"] e t
    by (intro exI[of _ m] exI[of _ "str_nat (m div 10)"] exI[of _ "digit_char (m mod 10)"] conjI)
qed

section \<open>Device state after a reading\<close>

text \<open>
  Claim C2. When \<open>record_reading\<close> returns for a device that exists, the device row holds
  the ingested \<open>battery_pct\<close> as \<open>current_pct\<close>, the reading's timestamp as \<open>last_seen\<close>,
  and a status that is critical exactly when the value is at most 15, warning exactly when
  it is above 15 and at most 30, and online in every other case; the status is never
  offline. The other columns of the row are left as they were.
\<close>

theorem record_reading_updates_device:
  assumes "record_reading e ts st did pct vmv tc rssi = (st', Inr r)"
    and "get_device st did = Some d0"
  shows "\<exists>d. get_device st' did = Some d
           \<and> d = d0\<lparr>current_pct := pct, last_seen := reading_time r, status := status d\<rparr>
           \<and> current_pct d = pct \<and> battery_pct r = pct
           \<and> last_seen d = reading_time r \<and> reading_time r = ts
           \<and> (status d = ''critical'') = (pct \<le> 15)
           \<and> (status d = ''warning'') = (15 < pct \<and> pct \<le> 30)
           \<and> (status d = ''online'') = (\<not> pct \<le> 15 \<and> \<not> (15 < pct \<and> pct \<le> 30))
           \<and> status d \<noteq> ''offline''
           \<and> (\<forall>d' \<in> set (iot_devices st'). id_dev d' = did \<longrightarrow>
                 current_pct d' = pct \<and> last_seen d' = ts \<and> status d' = status d)"
proof -
  let ?d = "d0\<lparr>current_pct := pct, last_seen := ts, status := new_status pct\<rparr>"
  have dev: "iot_devices st' = iot_devices (update_device st pct ts (new_status pct) did)"
    using assms(1) by (rule iot_devices_after)
  have g: "get_device st' did = Some ?d"
    using get_device_cong[OF dev, of did] assms(2) by (simp add: get_device_update)
  from assms(1) obtain dr where r: "r = reading_row st ts did pct vmv tc rssi dr"
    by (rule record_reading_Inr)
  have rt: "reading_time r = ts" "battery_pct r = pct"
    by (simp_all add: r reading_row_def)
  have rows: "\<forall>d' \<in> set (iot_devices st'). id_dev d' = did \<longrightarrow>
                 current_pct d' = pct \<and> last_seen d' = ts \<and> status d' = new_status pct"
    unfolding dev using update_device_rows by blast
  have st: "(status ?d = ''critical'') = (pct \<le> 15)"
    "(status ?d = ''warning'') = (15 < pct \<and> pct \<le> 30)"
    "(status ?d = ''online'') = (\<not> pct \<le> 15 \<and> \<not> (15 < pct \<and> pct \<le> 30))"
    "status ?d \<noteq> ''offline''"
    by (auto simp: new_status_def CRITICAL_PCT_def LOW_PCT_def)
  have eq: "?d = d0\<lparr>current_pct := pct, last_seen := reading_time r, status := status ?d\<rparr>"
    by (simp add: rt)
  have f: "current_pct ?d = pct" "last_seen ?d = reading_time r" "status ?d = new_status pct"
    by (simp_all add: rt)
  show ?thesis
    apply (rule exI[of _ ?d])
    apply (intro conjI)
              apply (rule g)
             apply (rule eq)
            apply (rule f(1))
           apply (rule rt(2))
          apply (rule f(2))
         apply (rule rt(1))
        apply (rule st(1))
       apply (rule st(2))
      apply (rule st(3))
     apply (rule st(4))
    using rows f(3) apply simp
    done
qed

theorem record_reading_updates_device_witness:
  "get_device db1 1 = Some dev1
   \<and> (\<exists>st' r d. record_reading env0 ''2024-01-01T10:00:00'' db1 1 20 None None None = (st', Inr r)
          \<and> get_device st' 1 = Some d \<and> current_pct d = 20
          \<and> last_seen d = ''2024-01-01T10:00:00'' \<and> status d = ''warning'')"
proof -
  have cd: "compute_drain_rate env0 ''2024-01-01T10:00:00'' (select_prev db1 1) 20 = Inr None"
    by (simp add: select_prev_db1 compute_drain_rate_def)
  from record_reading_returns[OF env0_no_fault cd, of None None None] obtain st' r where
    rr: "record_reading env0 ''2024-01-01T10:00:00'' db1 1 20 None None None = (st', Inr r)"
    by blast
  from record_reading_updates_device[OF rr get_device_db1] obtain d where
    "get_device st' 1 = Some d" "current_pct d = 20" "last_seen d = reading_time r"
    "reading_time r = ''2024-01-01T10:00:00''"
    "(status d = ''warning'') = (15 < (20::real) \<and> (20::real) \<le> 30)"
    by blast
  then have "get_device st' 1 = Some d \<and> current_pct d = 20
          \<and> last_seen d = ''2024-01-01T10:00:00'' \<and> status d = ''warning''"
    by simp
  with rr get_device_db1 show ?thesis by blast
qed

section \<open>Drain rate\<close>

text \<open>
  Claim C3. Without store faults, \<open>record_reading\<close> returns a reading whose
  \<open>drain_rate\<close> is None when the device has no prior reading. Otherwise the prior reading
  is a stored reading \<open>m\<close> of the device with the greatest \<open>reading_time\<close> (its percentage
  is determined when the readings of the device at that time agree on it). When both
  timestamps parse and can be subtracted, the call returns; the elapsed hours, a float, are
  positive exactly when the new timestamp is later than the prior one; the \<open>drain_rate\<close>
  is None when the elapsed hours are not positive; when they are positive it is the prior
  percentage minus the new one, divided by the elapsed hours, both in float arithmetic,
  and rounded to 4 decimals: for a finite quotient \<open>q\<close> it is the double nearest to
  \<open>k / 10000\<close>, where the integer \<open>k\<close> is nearest to \<open>10000 * q\<close> and even on a tie. When
  one of the two timestamps does not parse, the \<open>drain_rate\<close> is None and the call still
  returns.
\<close>

theorem record_reading_drain_rate:
  assumes "\<forall>s. \<not> fault e s"
  shows "((\<forall>r \<in> set (battery_readings st). device_id r \<noteq> did) \<longrightarrow>
           (\<exists>st' r. record_reading e ts st did pct vmv tc rssi = (st', Inr r)
                    \<and> drain_rate r = None))
       \<and> (\<forall>(m::BatteryReading) t1 t0 td.
             m \<in> set (battery_readings st) \<and> device_id m = did
             \<and> (\<forall>r \<in> set (battery_readings st).
                   device_id r = did \<longrightarrow> reading_time r \<le> reading_time m)
             \<and> (\<forall>r \<in> set (battery_readings st).
                   device_id r = did \<and> reading_time r = reading_time m \<longrightarrow>
                   battery_pct r = battery_pct m)
             \<and> fromisoformat e ts = Some t1 \<and> fromisoformat e (reading_time m) = Some t0
             \<and> dt_sub t1 t0 = Inr td \<longrightarrow>
           (\<exists>st' r. record_reading e ts st did pct vmv tc rssi = (st', Inr r)
               \<and> drain_rate r =
                   (if 0 < float_div (total_seconds td) 3600
                    then Some (py_round (float_quot (float_sub (battery_pct m) pct)
                                           (float_div (total_seconds td) 3600)) 4)
                    else None)
               \<and> (0 < float_div (total_seconds td) 3600) = (0 < td)
               \<and> (\<forall>q. 0 < float_div (total_seconds td) 3600
                        \<and> float_quot (float_sub (battery_pct m) pct)
                             (float_div (total_seconds td) 3600) = Finite q \<longrightarrow>
                     (\<exists>k::int. drain_rate r = Some (Finite (round_to_double (of_int k / 10000)))
                         \<and> \<bar>of_int k - q * 10000\<bar> \<le> 1 / 2
                         \<and> (\<bar>of_int k - q * 10000\<bar> = 1 / 2 \<longrightarrow> even k)))))
       \<and> (\<forall>m::BatteryReading. m \<in> set (battery_readings st) \<and> device_id m = did
             \<and> (\<forall>r \<in> set (battery_readings st).
                   device_id r = did \<longrightarrow> reading_time r \<le> reading_time m)
             \<and> (fromisoformat e ts = None \<or> fromisoformat e (reading_time m) = None) \<longrightarrow>
           (\<exists>st' r. record_reading e ts st did pct vmv tc rssi = (st', Inr r)
                    \<and> drain_rate r = None))"
proof (intro conjI allI impI)
  assume "\<forall>r \<in> set (battery_readings st). device_id r \<noteq> did"
  then have "select_prev st did = None" by (simp add: select_prev_None)
  then have "compute_drain_rate e ts (select_prev st did) pct = Inr None"
    by (simp add: compute_drain_rate_cases(1))
  from record_reading_drain[OF assms this]
  show "\<exists>st' r. record_reading e ts st did pct vmv tc rssi = (st', Inr r) \<and> drain_rate r = None" .
next
  fix m :: BatteryReading and t1 t0 td
  let ?eh = "float_div (total_seconds td) 3600"
  let ?q = "float_quot (float_sub (battery_pct m) pct) ?eh"
  let ?dr = "if 0 < ?eh then Some (py_round ?q 4) else None"
  assume h: "m \<in> set (battery_readings st) \<and> device_id m = did
             \<and> (\<forall>r \<in> set (battery_readings st).
                   device_id r = did \<longrightarrow> reading_time r \<le> reading_time m)
             \<and> (\<forall>r \<in> set (battery_readings st).
                   device_id r = did \<and> reading_time r = reading_time m \<longrightarrow>
                   battery_pct r = battery_pct m)
             \<and> fromisoformat e ts = Some t1 \<and> fromisoformat e (reading_time m) = Some t0
             \<and> dt_sub t1 t0 = Inr td"
  from h have h1: "m \<in> set (battery_readings st)" by (rule conjunct1)
  from h have h2: "device_id m = did" by (elim conjE)
  from h have h3: "\<forall>r \<in> set (battery_readings st).
                   device_id r = did \<longrightarrow> reading_time r \<le> reading_time m" by (elim conjE)
  from h have h4: "\<forall>r \<in> set (battery_readings st).
                   device_id r = did \<and> reading_time r = reading_time m \<longrightarrow>
                   battery_pct r = battery_pct m" by (elim conjE)
  from h have h5: "fromisoformat e ts = Some t1" by (elim conjE)
  from h have h6: "fromisoformat e (reading_time m) = Some t0" by (elim conjE)
  from h have h7: "dt_sub t1 t0 = Inr td" by (elim conjE)
  have sp: "select_prev st did = Some (battery_pct m, reading_time m)"
    using h1 h2 h3 h4 by (rule select_prev_of_latest)
  have "compute_drain_rate e ts (Some (battery_pct m, reading_time m)) pct = Inr ?dr"
    using h5 h6 h7 by (rule compute_drain_rate_cases(4))
  then have "compute_drain_rate e ts (select_prev st did) pct = Inr ?dr"
    by (simp only: sp)
  from record_reading_drain[OF assms this] obtain st' r where
    rr: "record_reading e ts st did pct vmv tc rssi = (st', Inr r)" and dr: "drain_rate r = ?dr"
    by blast
  have "\<forall>q. 0 < ?eh \<and> ?q = Finite q \<longrightarrow>
          (\<exists>k::int. drain_rate r = Some (Finite (round_to_double (of_int k / 10000)))
              \<and> \<bar>of_int k - q * 10000\<bar> \<le> 1 / 2
              \<and> (\<bar>of_int k - q * 10000\<bar> = 1 / 2 \<longrightarrow> even k))"
  proof (intro allI impI)
    fix q
    assume a: "0 < ?eh \<and> ?q = Finite q"
    then have "drain_rate r = Some (py_round (Finite q) 4)"
      using dr by simp
    moreover from py_round_Finite[of q 4] obtain k :: int where
      "py_round (Finite q) 4 = Finite (round_to_double (of_int k / 10 ^ 4))"
      "\<bar>of_int k - q * 10 ^ 4\<bar> \<le> 1 / 2"
      "\<bar>of_int k - q * 10 ^ 4\<bar> = 1 / 2 \<longrightarrow> even k"
      by blast
    ultimately have "drain_rate r = Some (Finite (round_to_double (of_int k / 10000)))
              \<and> \<bar>of_int k - q * 10000\<bar> \<le> 1 / 2
              \<and> (\<bar>of_int k - q * 10000\<bar> = 1 / 2 \<longrightarrow> even k)"
      by simp
    then show "\<exists>k::int. drain_rate r = Some (Finite (round_to_double (of_int k / 10000)))
              \<and> \<bar>of_int k - q * 10000\<bar> \<le> 1 / 2
              \<and> (\<bar>of_int k - q * 10000\<bar> = 1 / 2 \<longrightarrow> even k)"
      by (rule exI)
  qed
  moreover have "(0 < ?eh) = (0 < td)"
    by (rule elapsed_hours_positive)
  moreover note rr dr
  ultimately
  have "record_reading e ts st did pct vmv tc rssi = (st', Inr r)
               \<and> drain_rate r = ?dr
               \<and> (0 < ?eh) = (0 < td)
               \<and> (\<forall>q. 0 < ?eh \<and> ?q = Finite q \<longrightarrow>
                     (\<exists>k::int. drain_rate r = Some (Finite (round_to_double (of_int k / 10000)))
                         \<and> \<bar>of_int k - q * 10000\<bar> \<le> 1 / 2
                         \<and> (\<bar>of_int k - q * 10000\<bar> = 1 / 2 \<longrightarrow> even k)))"
    by (intro conjI)
  then show "\<exists>st' r. record_reading e ts st did pct vmv tc rssi = (st', Inr r)
               \<and> drain_rate r = ?dr
               \<and> (0 < ?eh) = (0 < td)
               \<and> (\<forall>q. 0 < ?eh \<and> ?q = Finite q \<longrightarrow>
                     (\<exists>k::int. drain_rate r = Some (Finite (round_to_double (of_int k / 10000)))
                         \<and> \<bar>of_int k - q * 10000\<bar> \<le> 1 / 2
                         \<and> (\<bar>of_int k - q * 10000\<bar> = 1 / 2 \<longrightarrow> even k)))"
    by (intro exI)
next
  fix m :: BatteryReading
  assume h: "m \<in> set (battery_readings st) \<and> device_id m = did
             \<and> (\<forall>r \<in> set (battery_readings st).
                   device_id r = did \<longrightarrow> reading_time r \<le> reading_time m)
             \<and> (fromisoformat e ts = None \<or> fromisoformat e (reading_time m) = None)"
  from h have h1: "m \<in> set (battery_readings st)" by (rule conjunct1)
  from h have h2: "device_id m = did" by (elim conjE)
  from h have h3: "\<forall>r \<in> set (battery_readings st).
                   device_id r = did \<longrightarrow> reading_time r \<le> reading_time m" by (elim conjE)
  from h have h4: "fromisoformat e ts = None \<or> fromisoformat e (reading_time m) = None"
    by (elim conjE)
  from select_prev_time[OF h1 h2 h3] obtain p where
    sp: "select_prev st did = Some (p, reading_time m)"
    by blast
  from h4 have "compute_drain_rate e ts (Some (p, reading_time m)) pct = Inr None"
  proof
    assume "fromisoformat e ts = None"
    then show ?thesis by (rule compute_drain_rate_cases(2))
  next
    assume "fromisoformat e (reading_time m) = None"
    then show ?thesis by (rule compute_drain_rate_cases(3))
  qed
  then have "compute_drain_rate e ts (select_prev st did) pct = Inr None"
    by (simp only: sp)
  from record_reading_drain[OF assms this]
  show "\<exists>st' r. record_reading e ts st did pct vmv tc rssi = (st', Inr r) \<and> drain_rate r = None" .
qed

theorem record_reading_drain_rate_witness:
  "(\<forall>s. \<not> fault env0 s)
   \<and> battery_readings db4 = [r_a, r_b, r_c] \<and> device_id r_a = 1 \<and> device_id r_b = 1
   \<and> device_id r_c = 2 \<and> reading_time r_a < reading_time r_b \<and> battery_pct r_b = 80
   \<and> (\<exists>st' r. record_reading env0 ''2024-01-02T01:20:00'' db4 1 79.75 None None None = (st', Inr r)
          \<and> drain_rate r = Some (Finite (2694954017018505 / 144115188075855872)))
   \<and> (\<exists>st' r. record_reading env0 ''2024-01-01T12:00:00'' db4 1 79.75 None None None = (st', Inr r)
          \<and> drain_rate r = None)
   \<and> (\<exists>st' r. record_reading env0 ''2024-01-02T01:20:00'' db4 7 79.75 None None None = (st', Inr r)
          \<and> drain_rate r = None)"
proof -
  let ?t0 = "\<lparr>micros = 63839707200000000, utcoffset = None\<rparr>"
  let ?t1 = "\<lparr>micros = 63839755200000000, utcoffset = None\<rparr>"
  note main = record_reading_drain_rate[OF env0_no_fault]
  have p0: "fromisoformat env0 (reading_time r_b) = Some ?t0"
    by (simp add: env0_def db4_latest(5) iso_parse_12h)
  have p1: "fromisoformat env0 ''2024-01-02T01:20:00'' = Some ?t1"
    by (simp add: env0_def iso_parse_next_day)
  have p0': "fromisoformat env0 ''2024-01-01T12:00:00'' = Some ?t0"
    by (simp add: env0_def iso_parse_12h)
  have d1: "dt_sub ?t1 ?t0 = Inr 48000000000"
    by (simp add: dt_sub_def)
  have d0: "dt_sub ?t0 ?t0 = Inr 0"
    by (simp add: dt_sub_def)
  have h1: "r_b \<in> set (battery_readings db4) \<and> device_id r_b = 1
             \<and> (\<forall>r \<in> set (battery_readings db4).
                   device_id r = 1 \<longrightarrow> reading_time r \<le> reading_time r_b)
             \<and> (\<forall>r \<in> set (battery_readings db4).
                   device_id r = 1 \<and> reading_time r = reading_time r_b \<longrightarrow>
                   battery_pct r = battery_pct r_b)
             \<and> fromisoformat env0 ''2024-01-02T01:20:00'' = Some ?t1
             \<and> fromisoformat env0 (reading_time r_b) = Some ?t0
             \<and> dt_sub ?t1 ?t0 = Inr 48000000000"
    using db4_latest(1-4) p1 p0 d1 by (intro conjI)
  have h0: "r_b \<in> set (battery_readings db4) \<and> device_id r_b = 1
             \<and> (\<forall>r \<in> set (battery_readings db4).
                   device_id r = 1 \<longrightarrow> reading_time r \<le> reading_time r_b)
             \<and> (\<forall>r \<in> set (battery_readings db4).
                   device_id r = 1 \<and> reading_time r = reading_time r_b \<longrightarrow>
                   battery_pct r = battery_pct r_b)
             \<and> fromisoformat env0 ''2024-01-01T12:00:00'' = Some ?t0
             \<and> fromisoformat env0 (reading_time r_b) = Some ?t0
             \<and> dt_sub ?t0 ?t0 = Inr 0"
    using db4_latest(1-4) p0' p0 d0 by (intro conjI)
  have "0 < float_div (total_seconds 48000000000) 3600"
    by (simp add: elapsed_800_minutes)
  then have v: "(if 0 < float_div (total_seconds 48000000000) 3600
            then Some (py_round (float_quot (float_sub (battery_pct r_b) 79.75)
                                   (float_div (total_seconds 48000000000) 3600)) 4)
            else None) = Some (Finite (2694954017018505 / 144115188075855872))"
    by (simp only: if_True db4_latest(6) elapsed_800_minutes quotient_800_minutes
        round_800_minutes)
  from main[of db4 1 "''2024-01-02T01:20:00''" "79.75" None None None]
  have "\<exists>st' r. record_reading env0 ''2024-01-02T01:20:00'' db4 1 79.75 None None None = (st', Inr r)
          \<and> drain_rate r =
               (if 0 < float_div (total_seconds 48000000000) 3600
                then Some (py_round (float_quot (float_sub (battery_pct r_b) 79.75)
                                       (float_div (total_seconds 48000000000) 3600)) 4)
                else None)"
    using h1 by blast
  then have pos: "\<exists>st' r. record_reading env0 ''2024-01-02T01:20:00'' db4 1 79.75 None None None
                     = (st', Inr r)
          \<and> drain_rate r = Some (Finite (2694954017018505 / 144115188075855872))"
    by (simp only: v)
  from main[of db4 1 "''2024-01-01T12:00:00''" "79.75" None None None]
  have "\<exists>st' r. record_reading env0 ''2024-01-01T12:00:00'' db4 1 79.75 None None None = (st', Inr r)
          \<and> drain_rate r =
               (if 0 < float_div (total_seconds 0) 3600
                then Some (py_round (float_quot (float_sub (battery_pct r_b) 79.75)
                                       (float_div (total_seconds 0) 3600)) 4)
                else None)"
    using h0 by blast
  then have zero: "\<exists>st' r. record_reading env0 ''2024-01-01T12:00:00'' db4 1 79.75 None None None
                      = (st', Inr r) \<and> drain_rate r = None"
    by (simp add: elapsed_zero)
  have "\<forall>r \<in> set (battery_readings db4). device_id r \<noteq> 7"
    by (simp add: db4_def r_a_def r_b_def r_c_def)
  with main[of db4 7 "''2024-01-02T01:20:00''" "79.75" None None None]
  have none: "\<exists>st' r. record_reading env0 ''2024-01-02T01:20:00'' db4 7 79.75 None None None
                      = (st', Inr r) \<and> drain_rate r = None"
    by blast
  have rows: "battery_readings db4 = [r_a, r_b, r_c]" "device_id r_a = 1" "device_id r_b = 1"
    "device_id r_c = 2" "reading_time r_a < reading_time r_b" "battery_pct r_b = 80"
    by (simp_all add: db4_def r_a_def r_b_def r_c_def)
  from env0_no_fault rows pos zero none show ?thesis
    by (intro conjI)
qed

section \<open>Alert policy\<close>

text \<open>
  Claim C4. Without a store fault, one evaluation of the alert policy appends exactly one
  alert of type critical with threshold 15 when the value is at most 15, exactly one alert
  of type low\_battery with threshold 30 when the value is above 15 and at most 30, and
  nothing above 30; the two other tables are unchanged. The alert carries the value as
  \<open>current_value\<close> and the message of the source around the value printed with one
  decimal: a minus sign exactly when the sign bit of the float is set (a negative value, or
  the float \<open>-0.0\<close>), then the decimal digits, without leading zero, of the integer part,
  a point and one digit, which together denote the number of tenths nearest to ten times
  the absolute value, the even one on a tie.
\<close>

theorem check_alerts_policy:
  assumes "\<not> fault e InsertAlert" and "\<not> fault e CommitAlert"
  shows "snd (check_alerts e st did pct) = Inr ()
       \<and> iot_devices (fst (check_alerts e st did pct)) = iot_devices st
       \<and> battery_readings (fst (check_alerts e st did pct)) = battery_readings st
       \<and> (\<exists>num.
            battery_alerts (fst (check_alerts e st did pct)) = battery_alerts st @
              (if pct \<le> 15 then
                 [\<lparr>id_al = next_rowid (seq_alerts st) (map id_al (battery_alerts st)),
                   device_id_al = did, alert_type = ''critical'', threshold = 15,
                   current_value = pct,
                   message = ''CRITICAL: battery at '' @ num @ ''%!'',
                   resolved = False, created_at_al = current_timestamp e\<rparr>]
               else if pct \<le> 30 then
                 [\<lparr>id_al = next_rowid (seq_alerts st) (map id_al (battery_alerts st)),
                   device_id_al = did, alert_type = ''low_battery'', threshold = 30,
                   current_value = pct,
                   message = ''Battery low: '' @ num @ ''%'',
                   resolved = False, created_at_al = current_timestamp e\<rparr>]
               else [])
            \<and> num = fmt_1f (pct < 0 \<or> pct = 0 \<and> minus_zero e) pct
            \<and> (\<exists>(m::nat) ip fd.
                  num = (if pct < 0 \<or> pct = 0 \<and> minus_zero e then ''-'' else '''')
                          @ ip @ ''.'' @ [fd]
                  \<and> digits_val ip 0 = Some (m div 10) \<and> digits_val [fd] 0 = Some (m mod 10)
                  \<and> ip \<noteq> [] \<and> (ip = ''0'' \<or> hd ip \<noteq> CHR ''0'')
                  \<and> \<bar>real m - \<bar>pct\<bar> * 10\<bar> \<le> 1 / 2
                  \<and> (\<bar>real m - \<bar>pct\<bar> * 10\<bar> = 1 / 2 \<longrightarrow> even m)))"
proof -
  let ?neg = "pct < 0 \<or> pct = 0 \<and> minus_zero e"
  have s: "snd (check_alerts e st did pct) = Inr ()"
    using assms by (rule check_alerts_no_fault)
  then have "check_alerts e st did pct = (fst (check_alerts e st did pct), Inr ())"
    by (metis prod.collapse)
  from check_alerts_Inr[OF this]
  have a: "battery_alerts (fst (check_alerts e st did pct)) = battery_alerts st @
              (if pct \<le> 15 then
                 [\<lparr>id_al = next_rowid (seq_alerts st) (map id_al (battery_alerts st)),
                   device_id_al = did, alert_type = ''critical'', threshold = 15,
                   current_value = pct,
                   message = ''CRITICAL: battery at '' @ fmt_1f ?neg pct @ ''%!'',
                   resolved = False, created_at_al = current_timestamp e\<rparr>]
               else if pct \<le> 30 then
                 [\<lparr>id_al = next_rowid (seq_alerts st) (map id_al (battery_alerts st)),
                   device_id_al = did, alert_type = ''low_battery'', threshold = 30,
                   current_value = pct,
                   message = ''Battery low: '' @ fmt_1f ?neg pct @ ''%'',
                   resolved = False, created_at_al = current_timestamp e\<rparr>]
               else [])"
    by (simp add: alert_row_def signbit_def)
  have "battery_alerts (fst (check_alerts e st did pct)) = battery_alerts st @
              (if pct \<le> 15 then
                 [\<lparr>id_al = next_rowid (seq_alerts st) (map id_al (battery_alerts st)),
                   device_id_al = did, alert_type = ''critical'', threshold = 15,
                   current_value = pct,
                   message = ''CRITICAL: battery at '' @ fmt_1f ?neg pct @ ''%!'',
                   resolved = False, created_at_al = current_timestamp e\<rparr>]
               else if pct \<le> 30 then
                 [\<lparr>id_al = next_rowid (seq_alerts st) (map id_al (battery_alerts st)),
                   device_id_al = did, alert_type = ''low_battery'', threshold = 30,
                   current_value = pct,
                   message = ''Battery low: '' @ fmt_1f ?neg pct @ ''%'',
                   resolved = False, created_at_al = current_timestamp e\<rparr>]
               else [])
            \<and> fmt_1f ?neg pct = fmt_1f ?neg pct
            \<and> (\<exists>(m::nat) ip fd.
                  fmt_1f ?neg pct = (if ?neg then ''-'' else '''') @ ip @ ''.'' @ [fd]
                  \<and> digits_val ip 0 = Some (m div 10) \<and> digits_val [fd] 0 = Some (m mod 10)
                  \<and> ip \<noteq> [] \<and> (ip = ''0'' \<or> hd ip \<noteq> CHR ''0'')
                  \<and> \<bar>real m - \<bar>pct\<bar> * 10\<bar> \<le> 1 / 2
                  \<and> (\<bar>real m - \<bar>pct\<bar> * 10\<bar> = 1 / 2 \<longrightarrow> even m))"
    using a fmt_1f_digits[of ?neg pct] by (intro conjI refl)
  then have n: "\<exists>num.
            battery_alerts (fst (check_alerts e st did pct)) = battery_alerts st @
              (if pct \<le> 15 then
                 [\<lparr>id_al = next_rowid (seq_alerts st) (map id_al (battery_alerts st)),
                   device_id_al = did, alert_type = ''critical'', threshold = 15,
                   current_value = pct,
                   message = ''CRITICAL: battery at '' @ num @ ''%!'',
                   resolved = False, created_at_al = current_timestamp e\<rparr>]
               else if pct \<le> 30 then
                 [\<lparr>id_al = next_rowid (seq_alerts st) (map id_al (battery_alerts st)),
                   device_id_al = did, alert_type = ''low_battery'', threshold = 30,
                   current_value = pct,
                   message = ''Battery low: '' @ num @ ''%'',
                   resolved = False, created_at_al = current_timestamp e\<rparr>]
               else [])
            \<and> num = fmt_1f ?neg pct
            \<and> (\<exists>(m::nat) ip fd.
                  num = (if ?neg then ''-'' else '''') @ ip @ ''.'' @ [fd]
                  \<and> digits_val ip 0 = Some (m div 10) \<and> digits_val [fd] 0 = Some (m mod 10)
                  \<and> ip \<noteq> [] \<and> (ip = ''0'' \<or> hd ip \<noteq> CHR ''0'')
                  \<and> \<bar>real m - \<bar>pct\<bar> * 10\<bar> \<le> 1 / 2
                  \<and> (\<bar>real m - \<bar>pct\<bar> * 10\<bar> = 1 / 2 \<longrightarrow> even m))"
    by (rule exI[of _ "fmt_1f ?neg pct"])
  from s check_alerts_tables[of e st did pct] n show ?thesis
    by (intro conjI)
qed

theorem check_alerts_policy_witness:
  "\<not> fault env0 InsertAlert \<and> \<not> fault env0 CommitAlert
   \<and> battery_alerts (fst (check_alerts env0 db1 1 80)) = []
   \<and> battery_alerts (fst (check_alerts env0 db1 1 29.96875)) =
       [\<lparr>id_al = 1, device_id_al = 1, alert_type = ''low_battery'', threshold = 30,
         current_value = 29.96875, message = ''Battery low: 30.0%'', resolved = False,
         created_at_al = ''2024-01-01 09:00:00''\<rparr>]
   \<and> battery_alerts (fst (check_alerts env0 db1 1 12.25)) =
       [\<lparr>id_al = 1, device_id_al = 1, alert_type = ''critical'', threshold = 15,
         current_value = 12.25, message = ''CRITICAL: battery at 12.2%!'', resolved = False,
         created_at_al = ''2024-01-01 09:00:00''\<rparr>]
   \<and> battery_alerts (fst (check_alerts (env0\<lparr>minus_zero := True\<rparr>) db1 1 0)) =
       [\<lparr>id_al = 1, device_id_al = 1, alert_type = ''critical'', threshold = 15,
         current_value = 0, message = ''CRITICAL: battery at -0.0%!'', resolved = False,
         created_at_al = ''2024-01-01 09:00:00''\<rparr>]"
proof -
  have f: "\<not> fault env0 InsertAlert" "\<not> fault env0 CommitAlert"
    by (simp_all add: env0_def)
  have f': "\<not> fault (env0\<lparr>minus_zero := True\<rparr>) InsertAlert"
    "\<not> fault (env0\<lparr>minus_zero := True\<rparr>) CommitAlert"
    by (simp_all add: env0_def)
  have a: "battery_alerts db1 = []" "seq_alerts db1 = 0"
    "current_timestamp env0 = ''2024-01-01 09:00:00''"
    "current_timestamp (env0\<lparr>minus_zero := True\<rparr>) = ''2024-01-01 09:00:00''"
    "minus_zero env0 = False" "minus_zero (env0\<lparr>minus_zero := True\<rparr>) = True"
    by (simp_all add: db1_def db0_def env0_def)
  have n: "next_rowid 0 [] = 1"
    by (simp add: next_rowid_def)
  from check_alerts_policy[OF f, of db1 1 80]
  have c80: "battery_alerts (fst (check_alerts env0 db1 1 80)) = []"
    by (simp add: a)
  from check_alerts_policy[OF f, of db1 1 "29.96875"] obtain num1 where
    "battery_alerts (fst (check_alerts env0 db1 1 29.96875)) = battery_alerts db1 @
       [\<lparr>id_al = next_rowid (seq_alerts db1) (map id_al (battery_alerts db1)),
         device_id_al = 1, alert_type = ''low_battery'', threshold = 30,
         current_value = 29.96875, message = ''Battery low: '' @ num1 @ ''%'',
         resolved = False, created_at_al = current_timestamp env0\<rparr>]"
    "num1 = fmt_1f ((29.96875::real) < 0 \<or> (29.96875::real) = 0 \<and> minus_zero env0) 29.96875"
    by auto
  then have c30: "battery_alerts (fst (check_alerts env0 db1 1 29.96875)) =
       [\<lparr>id_al = 1, device_id_al = 1, alert_type = ''low_battery'', threshold = 30,
         current_value = 29.96875, message = ''Battery low: 30.0%'', resolved = False,
         created_at_al = ''2024-01-01 09:00:00''\<rparr>]"
    by (simp add: a n fmt_1f_values)
  from check_alerts_policy[OF f, of db1 1 "12.25"] obtain num2 where
    "battery_alerts (fst (check_alerts env0 db1 1 12.25)) = battery_alerts db1 @
       [\<lparr>id_al = next_rowid (seq_alerts db1) (map id_al (battery_alerts db1)),
         device_id_al = 1, alert_type = ''critical'', threshold = 15,
         current_value = 12.25, message = ''CRITICAL: battery at '' @ num2 @ ''%!'',
         resolved = False, created_at_al = current_timestamp env0\<rparr>]"
    "num2 = fmt_1f ((12.25::real) < 0 \<or> (12.25::real) = 0 \<and> minus_zero env0) 12.25"
    by auto
  then have c12: "battery_alerts (fst (check_alerts env0 db1 1 12.25)) =
       [\<lparr>id_al = 1, device_id_al = 1, alert_type = ''critical'', threshold = 15,
         current_value = 12.25, message = ''CRITICAL: battery at 12.2%!'', resolved = False,
         created_at_al = ''2024-01-01 09:00:00''\<rparr>]"
    by (simp add: a n fmt_1f_values)
  from check_alerts_policy[OF f', of db1 1 0] obtain num3 where
    "battery_alerts (fst (check_alerts (env0\<lparr>minus_zero := True\<rparr>) db1 1 0)) = battery_alerts db1 @
       [\<lparr>id_al = next_rowid (seq_alerts db1) (map id_al (battery_alerts db1)),
         device_id_al = 1, alert_type = ''critical'', threshold = 15,
         current_value = 0, message = ''CRITICAL: battery at '' @ num3 @ ''%!'',
         resolved = False, created_at_al = current_timestamp (env0\<lparr>minus_zero := True\<rparr>)\<rparr>]"
    "num3 = fmt_1f ((0::real) < 0 \<or> (0::real) = 0 \<and> minus_zero (env0\<lparr>minus_zero := True\<rparr>)) 0"
    by auto
  then have c0: "battery_alerts (fst (check_alerts (env0\<lparr>minus_zero := True\<rparr>) db1 1 0)) =
       [\<lparr>id_al = 1, device_id_al = 1, alert_type = ''critical'', threshold = 15,
         current_value = 0, message = ''CRITICAL: battery at -0.0%!'', resolved = False,
         created_at_al = ''2024-01-01 09:00:00''\<rparr>]"
    by (simp add: a n fmt_1f_values)
  from f c80 c30 c12 c0 show ?thesis
    by (intro conjI)
qed

section \<open>Atomicity of the reading insert and the device update\<close>

text \<open>
  Claim C5. Whatever statement fails, \<open>record_reading\<close> leaves the store either as it
  was, or with the new reading inserted and the device row updated, both; and when it
  returns a reading, both have been applied.
\<close>

theorem record_reading_atomic:
  "(fst (record_reading e ts st did pct vmv tc rssi) = st
    \<or> (\<exists>r. battery_readings (fst (record_reading e ts st did pct vmv tc rssi))
              = battery_readings st @ [r]
          \<and> device_id r = did \<and> reading_time r = ts \<and> battery_pct r = pct
          \<and> iot_devices (fst (record_reading e ts st did pct vmv tc rssi))
              = iot_devices (update_device st pct ts (new_status pct) did)))
   \<and> (\<forall>r. snd (record_reading e ts st did pct vmv tc rssi) = Inr r \<longrightarrow>
          battery_readings (fst (record_reading e ts st did pct vmv tc rssi))
              = battery_readings st @ [r]
          \<and> iot_devices (fst (record_reading e ts st did pct vmv tc rssi))
              = iot_devices (update_device st pct ts (new_status pct) did))"
proof -
  obtain st' out where rr: "record_reading e ts st did pct vmv tc rssi = (st', out)"
    by (cases "record_reading e ts st did pct vmv tc rssi")
  have both: "battery_readings st' = battery_readings st @ [r]
              \<and> device_id r = did \<and> reading_time r = ts \<and> battery_pct r = pct
              \<and> iot_devices st' = iot_devices (update_device st pct ts (new_status pct) did)"
    if "out = Inr r" for r
  proof -
    from rr that have h: "record_reading e ts st did pct vmv tc rssi = (st', Inr r)" by simp
    then obtain dr where r: "r = reading_row st ts did pct vmv tc rssi dr"
      and c: "check_alerts e (update_device (insert_reading st r) pct ts (new_status pct) did) did pct
          = (st', Inr ())"
      by (rule record_reading_Inr)
    have "battery_readings st'
            = battery_readings (update_device (insert_reading st r) pct ts (new_status pct) did)"
      using check_alerts_tables(2)[of e "update_device (insert_reading st r) pct ts (new_status pct) did" did pct]
      by (simp add: c)
    then have "battery_readings st' = battery_readings st @ [r]"
      by (simp add: update_device_def insert_reading_def)
    then show ?thesis
      using iot_devices_after[OF h] by (simp add: r reading_row_def)
  qed
  have first: "st' = st \<or> (\<exists>r. battery_readings st' = battery_readings st @ [r]
              \<and> device_id r = did \<and> reading_time r = ts \<and> battery_pct r = pct
              \<and> iot_devices st' = iot_devices (update_device st pct ts (new_status pct) did))"
  proof (cases out)
    case (Inl err)
    with rr have "record_reading e ts st did pct vmv tc rssi = (st', Inl err)" by simp
    from record_reading_Inl[OF this] show ?thesis
      by (auto simp: update_device_def insert_reading_def reading_row_def)
  next
    case (Inr r)
    then show ?thesis using both by blast
  qed
  show ?thesis
    using first both by (simp add: rr)
qed

theorem record_reading_atomic_witness:
  "\<exists>r. snd (record_reading env0 ''2024-01-01T10:00:00'' db1 1 20 None None None) = Inr r
      \<and> battery_readings (fst (record_reading env0 ''2024-01-01T10:00:00'' db1 1 20 None None None))
          = [r]
      \<and> iot_devices (fst (record_reading env0 ''2024-01-01T10:00:00'' db1 1 20 None None None))
          = [dev1\<lparr>current_pct := 20, last_seen := ''2024-01-01T10:00:00'', status := ''warning''\<rparr>]"
proof -
  have cd: "compute_drain_rate env0 ''2024-01-01T10:00:00'' (select_prev db1 1) 20 = Inr None"
    by (simp add: select_prev_db1 compute_drain_rate_def)
  from record_reading_returns[OF env0_no_fault cd, of None None None] obtain r where
    rr: "snd (record_reading env0 ''2024-01-01T10:00:00'' db1 1 20 None None None) = Inr r"
    by auto
  have u: "iot_devices (update_device db1 20 ''2024-01-01T10:00:00'' (new_status 20) 1)
         = [dev1\<lparr>current_pct := 20, last_seen := ''2024-01-01T10:00:00'', status := ''warning''\<rparr>]"
    by (simp add: update_device_def db1_def db0_def dev1_def new_status_def CRITICAL_PCT_def LOW_PCT_def)
  have b: "battery_readings db1 = []"
    by (simp add: db1_def db0_def)
  from record_reading_atomic[of env0 "''2024-01-01T10:00:00''" db1 1 20 None None None] rr
  have "battery_readings (fst (record_reading env0 ''2024-01-01T10:00:00'' db1 1 20 None None None))
          = battery_readings db1 @ [r]
      \<and> iot_devices (fst (record_reading env0 ''2024-01-01T10:00:00'' db1 1 20 None None None))
          = iot_devices (update_device db1 20 ''2024-01-01T10:00:00'' (new_status 20) 1)"
    by blast
  with rr show ?thesis by (simp add: u b)
qed

section \<open>Ingestion for a device that does not exist\<close>

text \<open>
  Claim C1. The claim is that \<open>record_reading\<close> for a device id without a device row
  fails and leaves the store unchanged. The code does no such check: the schema declares
  \<open>device_id\<close> as a reference to \<open>iot_devices(id)\<close>, but nothing enforces it. On a
  store whose only device has id 1, a reading of 10 percent for device 42 returns
  normally, inserts a reading row for device 42, leaves the device table as it was and
  inserts a critical alert for device 42.
\<close>

theorem record_reading_unknown_device:
  "get_device db1 42 = None
   \<and> (\<exists>st' r. record_reading env0 ''2024-01-01T10:00:00'' db1 42 10 None None None = (st', Inr r)
          \<and> device_id r = 42 \<and> battery_pct r = 10
          \<and> battery_readings st' = [r]
          \<and> iot_devices st' = [dev1]
          \<and> battery_alerts st' =
               [\<lparr>id_al = 1, device_id_al = 42, alert_type = ''critical'', threshold = 15,
                 current_value = 10, message = ''CRITICAL: battery at 10.0%!'',
                 resolved = False, created_at_al = ''2024-01-01 09:00:00''\<rparr>])"
proof -
  have g: "get_device db1 42 = None"
    by (simp add: get_device_def db1_def db0_def dev1_def)
  have sp: "select_prev db1 42 = None"
    by (simp add: select_prev_def db1_def db0_def)
  have cd: "compute_drain_rate env0 ''2024-01-01T10:00:00'' (select_prev db1 42) 10 = Inr None"
    by (simp add: sp compute_drain_rate_def)
  from record_reading_returns[OF env0_no_fault cd, of None None None] obtain st' where
    rr: "record_reading env0 ''2024-01-01T10:00:00'' db1 42 10 None None None
           = (st', Inr (reading_row db1 ''2024-01-01T10:00:00'' 42 10 None None None None))"
    by blast
  let ?r = "reading_row db1 ''2024-01-01T10:00:00'' 42 10 None None None None"
  have t: "battery_readings db1 = []" "battery_alerts db1 = []" "seq_alerts db1 = 0"
    "iot_devices db1 = [dev1]" "current_timestamp env0 = ''2024-01-01 09:00:00''"
    by (simp_all add: db1_def db0_def env0_def)
  have "battery_readings st' = [?r]"
    using record_reading_tables(1)[OF rr] by (simp add: t)
  moreover have "iot_devices st' = [dev1]"
    using record_reading_tables(2)[OF rr] by (simp add: update_device_unknown[OF g] t)
  moreover have "battery_alerts st' =
               [\<lparr>id_al = 1, device_id_al = 42, alert_type = ''critical'', threshold = 15,
                 current_value = 10, message = ''CRITICAL: battery at 10.0%!'',
                 resolved = False, created_at_al = ''2024-01-01 09:00:00''\<rparr>]"
    using record_reading_tables(3)[OF rr]
    by (simp add: t alert_row_def next_rowid_def fmt_1f_10 signbit_env0)
  moreover have "device_id ?r = 42" "battery_pct ?r = 10"
    by (simp_all add: reading_row_def)
  ultimately show ?thesis
    using g rr by blast
qed

section \<open>No deduplication of alerts\<close>

text \<open>
  Claim C6. When a sequence of readings for one device has been ingested, the alert table
  is the one before, followed by one new unresolved alert of that device for every reading
  of the sequence whose value is at most 30, whatever alerts the table held before.
\<close>

theorem ingest_all_no_dedup:
  assumes "ingest_all st did xs = (st', Inr rs)"
  shows "\<exists>new. battery_alerts st' = battery_alerts st @ new
           \<and> length new = length (filter (\<lambda>(e, ts, pct). pct \<le> 30) xs)
           \<and> (\<forall>a \<in> set new. device_id_al a = did \<and> \<not> resolved a)
           \<and> length rs = length xs"
  using assms
proof (induction xs arbitrary: st st' rs)
  case Nil
  then show ?case by simp
next
  case (Cons x xs)
  obtain e ts pct where x: "x = (e, ts, pct)"
    by (cases x)
  obtain st1 out1 where rr: "record_reading e ts st did pct None None None = (st1, out1)"
    by (cases "record_reading e ts st did pct None None None")
  show ?case
  proof (cases out1)
    case (Inl err)
    with Cons.prems x rr show ?thesis by simp
  next
    case (Inr r)
    obtain st2 out2 where ia: "ingest_all st1 did xs = (st2, out2)"
      by (cases "ingest_all st1 did xs")
    show ?thesis
    proof (cases out2)
      case (Inl err)
      with Cons.prems x rr Inr ia show ?thesis by simp
    next
      case rs': (Inr rs')
      with Cons.prems x rr Inr ia have st': "st' = st2" and rs: "rs = r # rs'"
        by simp_all
      from rr Inr have "record_reading e ts st did pct None None None = (st1, Inr r)"
        by simp
      from record_reading_new_alerts[OF this] obtain new1 where
        n1: "battery_alerts st1 = battery_alerts st @ new1"
        "length new1 = (if pct \<le> 30 then 1 else 0)"
        "\<forall>a \<in> set new1. device_id_al a = did \<and> \<not> resolved a"
        by blast
      from ia rs' have "ingest_all st1 did xs = (st2, Inr rs')"
        by simp
      from Cons.IH[OF this] obtain new2 where
        n2: "battery_alerts st2 = battery_alerts st1 @ new2"
        "length new2 = length (filter (\<lambda>(e, ts, pct). pct \<le> 30) xs)"
        "\<forall>a \<in> set new2. device_id_al a = did \<and> \<not> resolved a"
        "length rs' = length xs"
        by blast
      have "battery_alerts st' = battery_alerts st @ (new1 @ new2)"
        by (simp add: st' n1(1) n2(1))
      moreover have "length (new1 @ new2) = length (filter (\<lambda>(e, ts, pct). pct \<le> 30) (x # xs))"
        by (simp add: x n1(2) n2(2))
      moreover have "\<forall>a \<in> set (new1 @ new2). device_id_al a = did \<and> \<not> resolved a"
        using n1(3) n2(3) by auto
      moreover have "length rs = length (x # xs)"
        by (simp add: rs n2(4))
      ultimately show ?thesis by blast
    qed
  qed
qed

theorem ingest_all_no_dedup_witness:
  "\<exists>st' rs. ingest_all db3 1 [(env0, ''2024-01-01T10:00:00'', 20), (env0, ''2024-01-01T11:00:00'', 25)]
              = (st', Inr rs)
      \<and> length (battery_alerts db3) = 1
      \<and> length (battery_alerts st') = 3"
proof -
  let ?t1 = "''2024-01-01T10:00:00''" and ?t2 = "''2024-01-01T11:00:00''"
  let ?xs = "[(env0, ?t1, 20::real), (env0, ?t2, 25)]"
  have sp: "select_prev db3 1 = None"
    by (simp add: select_prev_def db3_def db1_def db0_def)
  have cd1: "compute_drain_rate env0 ?t1 (select_prev db3 1) 20 = Inr None"
    by (simp add: sp compute_drain_rate_def)
  from record_reading_returns[OF env0_no_fault cd1, of None None None] obtain st1 where
    rr1: "record_reading env0 ?t1 db3 1 20 None None None
            = (st1, Inr (reading_row db3 ?t1 1 20 None None None None))"
    by blast
  have b3: "battery_readings db3 = []"
    by (simp add: db3_def db1_def db0_def)
  have sp1: "select_prev st1 1 = Some (20, ?t1)"
    using record_reading_tables(1)[OF rr1] by (simp add: select_prev_def b3 reading_row_def)
  have p: "fromisoformat env0 ?t2 = Some \<lparr>micros = 63839703600000000, utcoffset = None\<rparr>"
    "fromisoformat env0 ?t1 = Some \<lparr>micros = 63839700000000000, utcoffset = None\<rparr>"
    by (simp_all add: env0_def iso_parse_10h iso_parse_11h)
  have d: "dt_sub \<lparr>micros = 63839703600000000, utcoffset = None\<rparr>
                  \<lparr>micros = 63839700000000000, utcoffset = None\<rparr> = Inr 3600000000"
    by (simp add: dt_sub_def)
  from compute_drain_rate_cases(4)[OF p d, of 20 25] obtain dr where
    cd2: "compute_drain_rate env0 ?t2 (select_prev st1 1) 25 = Inr dr"
    by (simp add: sp1)
  from record_reading_returns[OF env0_no_fault cd2, of None None None] obtain st2 where
    rr2: "record_reading env0 ?t2 st1 1 25 None None None
            = (st2, Inr (reading_row st1 ?t2 1 25 None None None dr))"
    by blast
  have ia: "ingest_all db3 1 ?xs
              = (st2, Inr [reading_row db3 ?t1 1 20 None None None None,
                           reading_row st1 ?t2 1 25 None None None dr])"
    by (simp add: rr1 rr2)
  from ingest_all_no_dedup[OF ia] obtain new where
    "battery_alerts st2 = battery_alerts db3 @ new"
    "length new = length (filter (\<lambda>(e, ts, pct). pct \<le> 30) ?xs)"
    by blast
  moreover have l3: "length (battery_alerts db3) = 1"
    by (simp add: db3_def)
  ultimately have "length (battery_alerts st2) = 3"
    by simp
  with ia l3 show ?thesis by blast
qed

section \<open>Health buckets\<close>

text \<open>
  Claim C7. \<open>fleet_status\<close> always returns; its four buckets count the devices by
  \<open>current_pct\<close> (healthy at 60 and above, warning from 30 up to 60, low from 15 up to 30,
  critical below 15), which is the count of the devices by their \<open>health_label\<close>, so every
  device is in exactly one bucket; the four counts add up to \<open>total_devices\<close>; and the
  result does not change when the stored status of the devices is replaced by anything.
\<close>

theorem fleet_status_buckets:
  "\<exists>fs. fleet_status st = Inr fs
     \<and> total_devices fs = int (length (iot_devices st))
     \<and> healthy fs = count_if (\<lambda>d. 60 \<le> current_pct d) (iot_devices st)
     \<and> warning fs = count_if (\<lambda>d. 30 \<le> current_pct d \<and> current_pct d < 60) (iot_devices st)
     \<and> low fs = count_if (\<lambda>d. 15 \<le> current_pct d \<and> current_pct d < 30) (iot_devices st)
     \<and> critical fs = count_if (\<lambda>d. current_pct d < 15) (iot_devices st)
     \<and> healthy fs = count_if (\<lambda>d. health_label d = ''healthy'') (iot_devices st)
     \<and> warning fs = count_if (\<lambda>d. health_label d = ''warning'') (iot_devices st)
     \<and> low fs = count_if (\<lambda>d. health_label d = ''low'') (iot_devices st)
     \<and> critical fs = count_if (\<lambda>d. health_label d = ''critical'') (iot_devices st)
     \<and> healthy fs + warning fs + low fs + critical fs = total_devices fs
     \<and> fleet_status (st\<lparr>iot_devices := map (\<lambda>d. d\<lparr>status := f d\<rparr>) (iot_devices st)\<rparr>)
           = Inr fs"
proof -
  let ?st = "st\<lparr>iot_devices := map (\<lambda>d. d\<lparr>status := f d\<rparr>) (iot_devices st)\<rparr>"
  have avg: "fleet_avg (iot_devices ?st) = fleet_avg (iot_devices st)"
    by (simp add: fleet_avg_def comp_def)
  have indep: "fleet_status ?st = fleet_status st"
    unfolding fleet_status_eq[of ?st] fleet_status_eq[of st] avg
    by (simp add: count_if_map)
  show ?thesis
    unfolding indep
    by (simp add: fleet_status_eq health_label_cases count_if_partition)
qed

theorem fleet_status_buckets_witness:
  "\<exists>fs. fleet_status fleet4 = Inr fs \<and> total_devices fs = 4
      \<and> healthy fs = 1 \<and> warning fs = 1 \<and> low fs = 1 \<and> critical fs = 1"
proof -
  have c: "count_if (\<lambda>d. 60 \<le> current_pct d) (iot_devices fleet4) = 1"
    "count_if (\<lambda>d. 30 \<le> current_pct d \<and> current_pct d < 60) (iot_devices fleet4) = 1"
    "count_if (\<lambda>d. 15 \<le> current_pct d \<and> current_pct d < 30) (iot_devices fleet4) = 1"
    "count_if (\<lambda>d. current_pct d < 15) (iot_devices fleet4) = 1"
    by (simp_all add: count_if_def fleet4_def db0_def dev1_def)
  from fleet_status_buckets[of fleet4] obtain fs where
    "fleet_status fleet4 = Inr fs"
    "total_devices fs = int (length (iot_devices fleet4))"
    "healthy fs = count_if (\<lambda>d. 60 \<le> current_pct d) (iot_devices fleet4)"
    "warning fs = count_if (\<lambda>d. 30 \<le> current_pct d \<and> current_pct d < 60) (iot_devices fleet4)"
    "low fs = count_if (\<lambda>d. 15 \<le> current_pct d \<and> current_pct d < 30) (iot_devices fleet4)"
    "critical fs = count_if (\<lambda>d. current_pct d < 15) (iot_devices fleet4)"
    by blast
  then show ?thesis
    by (simp add: c fleet4_devices(2))
qed

section \<open>Average battery level\<close>



section \<open>The boundary at 15 percent\<close>

text \<open>
  Claim C9. After a reading of exactly 15.0 for an existing device (device ids being
  unique), the device has status critical, while \<open>fleet_status\<close> counts it in the low
  bucket and not in the critical bucket: compared with the fleet without this device, low
  is one more and critical is the same.
\<close>

theorem boundary_15_status_vs_bucket:
  assumes rr: "record_reading e ts st did 15 vmv tc rssi = (st', Inr r)"
    and g: "get_device st did = Some d0"
    and dist: "distinct (map id_dev (iot_devices st))"
  shows "\<exists>d fs fs'. get_device st' did = Some d \<and> current_pct d = 15
           \<and> status d = ''critical'' \<and> health_label d = ''low''
           \<and> fleet_status st' = Inr fs
           \<and> fleet_status (st'\<lparr>iot_devices := filter (\<lambda>x. id_dev x \<noteq> did) (iot_devices st')\<rparr>)
               = Inr fs'
           \<and> low fs = low fs' + 1 \<and> critical fs = critical fs'"
proof -
  let ?d = "d0\<lparr>current_pct := 15, last_seen := ts, status := new_status 15\<rparr>"
  let ?rest = "filter (\<lambda>x. id_dev x \<noteq> did) (iot_devices st')"
  have dev: "iot_devices st' = iot_devices (update_device st 15 ts (new_status 15) did)"
    using rr by (rule record_reading_tables(2))
  have gd: "get_device st' did = Some ?d"
    using get_device_cong[OF dev, of did] g by (simp add: get_device_update)
  have "distinct (map id_dev (iot_devices st'))"
    using dist by (simp only: dev update_device_ids)
  moreover have "find (\<lambda>x. id_dev x = did) (iot_devices st') = Some ?d"
    using gd by (simp only: get_device_def)
  ultimately have one: "filter (\<lambda>x. id_dev x = did) (iot_devices st') = [?d]"
    by (rule filter_key_distinct)
  have split: "count_if P (iot_devices st') = count_if P ?rest + count_if P [?d]" for P
    using count_if_split[of P "iot_devices st'" "\<lambda>x. id_dev x = did"] by (simp only: one)
  have st: "status ?d = ''critical''"
    by (simp add: new_status_def CRITICAL_PCT_def)
  have hl: "health_label ?d = ''low''"
    by (simp add: health_label_def)
  have lo: "count_if (\<lambda>d. 15 \<le> current_pct d \<and> current_pct d < 30) (iot_devices st')
            = count_if (\<lambda>d. 15 \<le> current_pct d \<and> current_pct d < 30) ?rest + 1"
    unfolding split by (simp add: count_if_def)
  have cr: "count_if (\<lambda>d. current_pct d < 15) (iot_devices st')
            = count_if (\<lambda>d. current_pct d < 15) ?rest"
    unfolding split by (simp add: count_if_def)
  obtain fs where fs: "fleet_status st' = Inr fs"
    and fl: "low fs = count_if (\<lambda>d. 15 \<le> current_pct d \<and> current_pct d < 30) (iot_devices st')"
    and fc: "critical fs = count_if (\<lambda>d. current_pct d < 15) (iot_devices st')"
    by (simp add: fleet_status_eq)
  obtain fs' where fs': "fleet_status (st'\<lparr>iot_devices := ?rest\<rparr>) = Inr fs'"
    and fl': "low fs' = count_if (\<lambda>d. 15 \<le> current_pct d \<and> current_pct d < 30) ?rest"
    and fc': "critical fs' = count_if (\<lambda>d. current_pct d < 15) ?rest"
    by (simp add: fleet_status_eq)
  have "low fs = low fs' + 1" "critical fs = critical fs'"
    by (simp_all only: fl fl' fc fc' lo cr)
  moreover have "current_pct ?d = 15" by simp
  ultimately show ?thesis
    using gd st hl fs fs' by blast
qed

theorem boundary_15_status_vs_bucket_witness:
  "get_device db1 1 = Some dev1 \<and> distinct (map id_dev (iot_devices db1))
   \<and> (\<exists>st' r d fs. record_reading env0 ''2024-01-01T10:00:00'' db1 1 15 None None None = (st', Inr r)
          \<and> get_device st' 1 = Some d \<and> current_pct d = 15 \<and> status d = ''critical''
          \<and> health_label d = ''low''
          \<and> fleet_status st' = Inr fs \<and> low fs = 1 \<and> critical fs = 0)"
proof -
  have cd: "compute_drain_rate env0 ''2024-01-01T10:00:00'' (select_prev db1 1) 15 = Inr None"
    by (simp add: select_prev_db1 compute_drain_rate_def)
  from record_reading_returns[OF env0_no_fault cd, of None None None] obtain st' r where
    rr: "record_reading env0 ''2024-01-01T10:00:00'' db1 1 15 None None None = (st', Inr r)"
    by blast
  have dist: "distinct (map id_dev (iot_devices db1))"
    by (simp add: db1_def db0_def)
  have "iot_devices st' = iot_devices (update_device db1 15 ''2024-01-01T10:00:00'' (new_status 15) 1)"
    using rr by (rule record_reading_tables(2))
  then have "filter (\<lambda>x. id_dev x \<noteq> 1) (iot_devices st') = []"
    by (simp add: update_device_def db1_def db0_def dev1_def)
  then have rest: "low fs' = 0 \<and> critical fs' = 0"
    if "fleet_status (st'\<lparr>iot_devices := filter (\<lambda>x. id_dev x \<noteq> 1) (iot_devices st')\<rparr>) = Inr fs'"
    for fs'
    using that by (auto simp: fleet_status_eq count_if_def)
  from boundary_15_status_vs_bucket[OF rr get_device_db1 dist] obtain d fs fs' where
    h: "get_device st' 1 = Some d" "current_pct d = 15" "status d = ''critical''"
    "health_label d = ''low''" "fleet_status st' = Inr fs"
    "fleet_status (st'\<lparr>iot_devices := filter (\<lambda>x. id_dev x \<noteq> 1) (iot_devices st')\<rparr>) = Inr fs'"
    "low fs = low fs' + 1" "critical fs = critical fs'"
    by blast
  from rest[OF h(6)] h(7,8) have "low fs = 1" "critical fs = 0"
    by simp_all
  with rr h(1-5) get_device_db1 dist show ?thesis
    by blast
qed

section \<open>Registration\<close>

text \<open>
  Claim C10. Every device that \<open>add_device\<close> returns has \<open>current_pct\<close> 100.0 and status
  online, whatever the arguments; it is the row appended to the device table, under a fresh
  id, with the arguments in its other columns.
\<close>

theorem add_device_initial_state:
  assumes "add_device e ts st nm dtype loc btype cap fw nts = (st', Inr res)"
  shows "\<exists>d. res = Some d \<and> iot_devices st' = iot_devices st @ [d]
           \<and> get_device st' (id_dev d) = Some d
           \<and> id_dev d \<notin> set (map id_dev (iot_devices st))
           \<and> current_pct d = 100.0 \<and> status d = ''online''
           \<and> name d = nm \<and> device_type d = dtype \<and> location d = loc
           \<and> battery_type d = btype \<and> battery_capacity_mah d = cap
           \<and> firmware_version d = fw \<and> notes_dev d = nts \<and> last_seen d = ts"
proof -
  let ?id = "next_rowid (seq_devices st) (map id_dev (iot_devices st))"
  let ?row = "\<lparr>id_dev = ?id, name = nm, device_type = dtype, location = loc,
               battery_type = btype, battery_capacity_mah = cap,
               current_pct = 100.0, last_seen = ts, status = ''online'',
               firmware_version = fw, notes_dev = nts,
               created_at = current_timestamp e\<rparr>"
  let ?st = "st\<lparr>iot_devices := iot_devices st @ [?row], seq_devices := ?id\<rparr>"
  have fresh: "\<forall>x \<in> set (iot_devices st). \<not> id_dev x = ?id"
    using next_rowid_fresh[of _ "map id_dev (iot_devices st)" "seq_devices st"] by fastforce
  have gd: "get_device ?st ?id = Some ?row"
    unfolding get_device_def using find_append_fresh[OF fresh, of ?row] by simp
  have nin: "?id \<notin> set (map id_dev (iot_devices st))"
    using fresh by (auto simp: image_iff)
  from assms have fr: "nm \<notin> set (map name (iot_devices st))"
    by (auto simp: add_device_def split: if_splits)
  then have "add_device e ts st nm dtype loc btype cap fw nts = (?st, Inr (get_device ?st ?id))"
    by (simp add: add_device_def Let_def)
  from this[symmetric] assms
  have eq: "(?st, Inr (get_device ?st ?id) :: error + IoTDevice option) = (st', Inr res)"
    by (rule trans)
  have s: "st' = ?st"
    using arg_cong[OF eq[symmetric], of fst] by (simp only: fst_conv)
  have r: "res = get_device ?st ?id"
    using arg_cong[OF eq[symmetric], of snd] by (simp only: snd_conv sum.inject)
  have "res = Some ?row" using r gd by simp
  moreover have "iot_devices st' = iot_devices st @ [?row]" using s by simp
  moreover have "get_device st' (id_dev ?row) = Some ?row" using s gd by simp
  moreover have "id_dev ?row \<notin> set (map id_dev (iot_devices st))" using nin by simp
  ultimately show ?thesis
    by (intro exI[of _ ?row]) simp
qed

theorem add_device_initial_state_witness:
  "\<exists>st' d. add_device env0 ''2024-01-01T09:00:00'' db0 ''sensor-1'' ''sensor'' ''lab'' ''LiPo'' 2000
              ''1.0.0'' '''' = (st', Inr (Some d))
      \<and> iot_devices st' = [d] \<and> current_pct d = 100 \<and> status d = ''online''
      \<and> name d = ''sensor-1''"
proof -
  have "''sensor-1'' \<notin> set (map name (iot_devices db0))"
    by (simp add: db0_def)
  from add_device_returns[OF this, of env0 "''2024-01-01T09:00:00''" "''sensor''" "''lab''"
      "''LiPo''" 2000 "''1.0.0''" "''''"]
  obtain st' res where
    a: "add_device env0 ''2024-01-01T09:00:00'' db0 ''sensor-1'' ''sensor'' ''lab'' ''LiPo'' 2000
          ''1.0.0'' '''' = (st', Inr res)"
    by blast
  from add_device_initial_state[OF a] obtain d where
    "res = Some d" "iot_devices st' = iot_devices db0 @ [d]" "current_pct d = 100.0"
    "status d = ''online''" "name d = ''sensor-1''"
    by blast
  with a show ?thesis
    by (simp add: db0_def)
qed

end
